theory Spec2Isabelle
  imports Complex_Main
begin

section \<open>Values, errors and Python list access\<close>

text \<open>
  The engine of \<^verbatim>\<open>pydlm/func/_dlm.py\<close> moves Python values between a model object and
  a ledger of lists. A value is \<^verbatim>\<open>None\<close>, the integer that \<^verbatim>\<open>_resetModelStatus\<close>
  writes into \<^verbatim>\<open>df\<close>, or a number or matrix computed by the filter; numbers and
  matrices are an abstract type \<open>'v\<close>, since no arithmetic on them happens in this file.
\<close>

datatype 'v pyval = PyNone | PyInt int | PyVal 'v

text \<open>
  Every \<^verbatim>\<open>raise NameError(...)\<close> of the file is one constructor, in the order of the
  source; the remaining constructors are the built-in exceptions of the list, dictionary,
  attribute and array accesses the file performs.
\<close>

datatype error =
    DataBeforeStartNotFiltered
  | LastDayNotFiltered
  | RangeOutOfSample
  | DateBeyondDataRange
  | ContinuePredictWithoutOneDayAhead
  | FeatureDictAndDateBothNone
  | NoDateNoFeature string
  | DateNotFiltered
  | IndexError
  | KeyError
  | AttributeError
  | ValueError
  | TypeError

datatype error_kind = SequencingError | RangeError | FeatureError | BuiltinError

fun kind_of :: "error \<Rightarrow> error_kind" where
  "kind_of DataBeforeStartNotFiltered = SequencingError"
| "kind_of LastDayNotFiltered = SequencingError"
| "kind_of DateNotFiltered = SequencingError"
| "kind_of ContinuePredictWithoutOneDayAhead = SequencingError"
| "kind_of RangeOutOfSample = RangeError"
| "kind_of DateBeyondDataRange = RangeError"
| "kind_of FeatureDictAndDateBothNone = FeatureError"
| "kind_of (NoDateNoFeature c) = FeatureError"
| "kind_of IndexError = BuiltinError"
| "kind_of KeyError = BuiltinError"
| "kind_of AttributeError = BuiltinError"
| "kind_of ValueError = BuiltinError"
| "kind_of TypeError = BuiltinError"

text \<open>
  \<^verbatim>\<open>xs[i]\<close>: an index from \<open>-len\<close> to \<open>len - 1\<close> is accepted, a negative one counts
  from the end, anything else raises \<^verbatim>\<open>IndexError\<close>.
\<close>

definition py_index :: "'a list \<Rightarrow> int \<Rightarrow> nat option" where
  "py_index xs i =
     (if 0 \<le> i \<and> i < int (length xs) then Some (nat i)
      else if - int (length xs) \<le> i \<and> i < 0 then Some (nat (int (length xs) + i))
      else None)"

definition getitem :: "'a list \<Rightarrow> int \<Rightarrow> error + 'a" where
  "getitem xs i = (case py_index xs i of None \<Rightarrow> Inl IndexError | Some k \<Rightarrow> Inr (xs ! k))"

definition setitem :: "'a list \<Rightarrow> int \<Rightarrow> 'a \<Rightarrow> error + 'a list" where
  "setitem xs i v = (case py_index xs i of None \<Rightarrow> Inl IndexError | Some k \<Rightarrow> Inr (xs[k := v]))"

text \<open>\<^verbatim>\<open>xs[lo:]\<close>: a slice bound is clipped, never an error.\<close>

definition slice_bound :: "nat \<Rightarrow> int \<Rightarrow> nat" where
  "slice_bound len i = (if i < 0 then nat (max 0 (int len + i)) else min len (nat i))"

definition py_slice_from :: "'a list \<Rightarrow> int \<Rightarrow> 'a list" where
  "py_slice_from xs lo = drop (slice_bound (length xs) lo) xs"

text \<open>
  \<^verbatim>\<open>row[0, lo:hi] = feature\<close> on a numpy row: the feature must have the length of the
  slice, or length one (it is then broadcast); otherwise numpy raises \<^verbatim>\<open>ValueError\<close>.
\<close>

definition assign_slice :: "'a list \<Rightarrow> int \<Rightarrow> int \<Rightarrow> 'a list \<Rightarrow> error + 'a list" where
  "assign_slice row lo hi feature =
     (let a = slice_bound (length row) lo;
          w = slice_bound (length row) hi - a
      in if length feature = w then Inr (take a row @ feature @ drop (a + w) row)
         else if length feature = 1 then Inr (take a row @ replicate w (hd feature) @ drop (a + w) row)
         else Inl ValueError)"

text \<open>\<^verbatim>\<open>int(x)\<close> on a float truncates towards zero.\<close>

definition py_int :: "real \<Rightarrow> int" where
  "py_int x = (if 0 \<le> x then \<lfloor>x\<rfloor> else \<lceil>x\<rceil>)"

section \<open>The data model\<close>

text \<open>
  \<^verbatim>\<open>model.prediction\<close>; its fields are prefixed, since \<^verbatim>\<open>state\<close>, \<^verbatim>\<open>sysVar\<close>,
  \<^verbatim>\<open>obs\<close> and \<^verbatim>\<open>obsVar\<close> are fields of the model as well.
\<close>

record 'v prediction =
  pred_state :: "'v pyval"
  pred_sysVar :: "'v pyval"
  pred_obs :: "'v pyval"
  pred_obsVar :: "'v pyval"
  pred_step :: int

text \<open>\<^verbatim>\<open>builder.model\<close>, with the fields this file reads or writes.\<close>

record 'v model =
  state :: "'v pyval"
  sysVar :: "'v pyval"
  noiseVar :: "'v pyval"
  df :: "'v pyval"
  obs :: "'v pyval"
  obsVar :: "'v pyval"
  evaluation :: "'v pyval list"
  prediction :: "'v prediction"

text \<open>
  A component of \<^verbatim>\<open>builder.automaticComponents\<close> or \<^verbatim>\<open>builder.dynamicComponents\<close>:
  its type tag and, for an autoregressive component, its lag order (the attribute \<^verbatim>\<open>d\<close>,
  here \<open>comp_d\<close>).
\<close>

record component =
  componentType :: string
  comp_d :: int

text \<open>
  \<^verbatim>\<open>self.builder\<close>. The two registries are dictionaries iterated in insertion order, so
  they are association lists; \<^verbatim>\<open>componentIndex\<close> is only looked up. The prior
  \<^verbatim>\<open>builder.noiseVar\<close> is \<open>builder_noiseVar\<close>, the model having a field of that name too.
\<close>

record 'v builder =
  model :: "'v model"
  statePrior :: "'v pyval"
  sysVarPrior :: "'v pyval"
  builder_noiseVar :: "'v pyval"
  renewTerm :: real
  dynamicComponents :: "(string \<times> component) list"
  automaticComponents :: "(string \<times> component) list"
  componentIndex :: "string \<rightharpoonup> (int \<times> int)"

text \<open>
  The inner class \<^verbatim>\<open>_result\<close>: the fourteen lists of \<^verbatim>\<open>records\<close>, the two ranges, and
  the prediction status \<^verbatim>\<open>[start date, current date, [predictedObs1, ...]]\<close> or \<^verbatim>\<open>None\<close>.
  The lists \<^verbatim>\<open>noiseVar\<close> and \<^verbatim>\<open>df\<close> are \<open>result_noiseVar\<close> and \<open>result_df\<close>.
\<close>

record 'v result =
  filteredObs :: "'v pyval list"
  predictedObs :: "'v pyval list"
  smoothedObs :: "'v pyval list"
  filteredObsVar :: "'v pyval list"
  predictedObsVar :: "'v pyval list"
  smoothedObsVar :: "'v pyval list"
  result_noiseVar :: "'v pyval list"
  result_df :: "'v pyval list"
  filteredState :: "'v pyval list"
  predictedState :: "'v pyval list"
  smoothedState :: "'v pyval list"
  filteredCov :: "'v pyval list"
  predictedCov :: "'v pyval list"
  smoothedCov :: "'v pyval list"
  filteredSteps :: "int \<times> int"
  smoothedSteps :: "int \<times> int"
  predictStatus :: "(int \<times> int \<times> 'v pyval list) option"

text \<open>\<^verbatim>\<open>_result.__init__(n)\<close>.\<close>

definition init_result :: "nat \<Rightarrow> 'v result" where
  "init_result k =
     \<lparr> filteredObs = replicate k PyNone, predictedObs = replicate k PyNone,
       smoothedObs = replicate k PyNone, filteredObsVar = replicate k PyNone,
       predictedObsVar = replicate k PyNone, smoothedObsVar = replicate k PyNone,
       result_noiseVar = replicate k PyNone, result_df = replicate k PyNone,
       filteredState = replicate k PyNone, predictedState = replicate k PyNone,
       smoothedState = replicate k PyNone, filteredCov = replicate k PyNone,
       predictedCov = replicate k PyNone, smoothedCov = replicate k PyNone,
       filteredSteps = (0, -1), smoothedSteps = (0, -1), predictStatus = None \<rparr>"

text \<open>
  The engine object \<^verbatim>\<open>self\<close> after \<^verbatim>\<open>_initialize\<close>: the series \<^verbatim>\<open>self.data\<close>
  (\<open>dlm_data\<close>), its length as stored in \<^verbatim>\<open>self.n\<close> (\<open>dlm_n\<close>), the ledger and the builder. The object has no attribute
  \<^verbatim>\<open>predictStatus\<close>: \<^verbatim>\<open>__init__\<close> sets \<^verbatim>\<open>data\<close>, \<^verbatim>\<open>n\<close>, \<^verbatim>\<open>result\<close>, \<^verbatim>\<open>builder\<close>,
  \<^verbatim>\<open>Filter\<close>, \<^verbatim>\<open>initialized\<close>, \<^verbatim>\<open>options\<close>, \<^verbatim>\<open>time\<close> and \<^verbatim>\<open>_printInfo\<close> only.
\<close>

record 'v dlm =
  dlm_data :: "'v pyval list"
  dlm_n :: int
  result :: "'v result"
  builder :: "'v builder"

text \<open>
  The collaborators the file calls and does not define: the three recursions of
  \<^verbatim>\<open>kalmanFilter\<close>, \<^verbatim>\<open>model.initializeObservation\<close>, \<^verbatim>\<open>builder.updateEvaluation\<close>
  (which regenerates the evaluation row of the model for a date) and the
  \<^verbatim>\<open>updateEvaluation\<close>/\<^verbatim>\<open>evaluation\<close> pair of a component. They are parameters, total
  functions of what they read: an exception raised inside one of them is not modelled, and
  \<open>error\<close> holds the exceptions raised by the statements of \<^verbatim>\<open>_dlm.py\<close> only.
\<close>

record 'v collaborators =
  Filter_forwardFilter :: "'v model \<Rightarrow> 'v pyval \<Rightarrow> 'v model"
  Filter_predict :: "'v model \<Rightarrow> 'v model"
  Filter_backwardSmoother :: "'v model \<Rightarrow> 'v pyval \<Rightarrow> 'v pyval \<Rightarrow> 'v model"
  model_initializeObservation :: "'v model \<Rightarrow> 'v model"
  builder_updateEvaluation :: "int \<Rightarrow> 'v pyval list \<Rightarrow> 'v pyval list"
  comp_updateEvaluation :: "string \<Rightarrow> int \<Rightarrow> 'v pyval list"

section \<open>Sequencing of statements that may raise\<close>

text \<open>
  A statement takes the state and gives the state it leaves behind together with either
  the exception it raised or its value: an exception does not undo earlier writes.
\<close>

definition and_then ::
  "(error + 'a) \<times> 's \<Rightarrow> ('a \<Rightarrow> 's \<Rightarrow> (error + 'b) \<times> 's) \<Rightarrow> (error + 'b) \<times> 's" where
  "and_then r f = (case r of (Inl e, s) \<Rightarrow> (Inl e, s) | (Inr a, s) \<Rightarrow> f a s)"

fun run_all :: "('s \<Rightarrow> (error + unit) \<times> 's) list \<Rightarrow> 's \<Rightarrow> (error + unit) \<times> 's" where
  "run_all [] s = (Inr (), s)"
| "run_all (a # acts) s =
     (case a s of (Inl e, s') \<Rightarrow> (Inl e, s') | (Inr u, s') \<Rightarrow> run_all acts s')"

text \<open>\<^verbatim>\<open>result.field[step] = v\<close>.\<close>

definition put ::
  "('v result \<Rightarrow> 'v pyval list) \<Rightarrow> (('v pyval list \<Rightarrow> 'v pyval list) \<Rightarrow> 'v result \<Rightarrow> 'v result)
     \<Rightarrow> int \<Rightarrow> 'v pyval \<Rightarrow> 'v result \<Rightarrow> (error + unit) \<times> 'v result" where
  "put sel upd step v r =
     (case setitem (sel r) step v of
        Inl e \<Rightarrow> (Inl e, r)
      | Inr xs \<Rightarrow> (Inr (), upd (\<lambda>_. xs) r))"

text \<open>\<^verbatim>\<open>model.field = xs[step]\<close>.\<close>

definition fetch ::
  "'v pyval list \<Rightarrow> int \<Rightarrow> ('v pyval \<Rightarrow> 'v model \<Rightarrow> 'v model)
     \<Rightarrow> 'v model \<Rightarrow> (error + unit) \<times> 'v model" where
  "fetch xs step wr m =
     (case getitem xs step of
        Inl e \<Rightarrow> (Inl e, m)
      | Inr v \<Rightarrow> (Inr (), wr v m))"

text \<open>Writes to the fields of \<^verbatim>\<open>model.prediction\<close>.\<close>

definition set_pred_obs :: "'v pyval \<Rightarrow> 'v model \<Rightarrow> 'v model" where
  "set_pred_obs v m = m\<lparr>prediction := (prediction m)\<lparr>pred_obs := v\<rparr>\<rparr>"

definition set_pred_obsVar :: "'v pyval \<Rightarrow> 'v model \<Rightarrow> 'v model" where
  "set_pred_obsVar v m = m\<lparr>prediction := (prediction m)\<lparr>pred_obsVar := v\<rparr>\<rparr>"

definition set_pred_state :: "'v pyval \<Rightarrow> 'v model \<Rightarrow> 'v model" where
  "set_pred_state v m = m\<lparr>prediction := (prediction m)\<lparr>pred_state := v\<rparr>\<rparr>"

definition set_pred_sysVar :: "'v pyval \<Rightarrow> 'v model \<Rightarrow> 'v model" where
  "set_pred_sysVar v m = m\<lparr>prediction := (prediction m)\<lparr>pred_sysVar := v\<rparr>\<rparr>"

definition set_pred_step :: "int \<Rightarrow> 'v model \<Rightarrow> 'v model" where
  "set_pred_step k m = m\<lparr>prediction := (prediction m)\<lparr>pred_step := k\<rparr>\<rparr>"

section \<open>Copying between the model and the ledger\<close>

text \<open>\<^verbatim>\<open>_copy(model, result, step, filterType)\<close>, lines 489-510.\<close>

definition copy :: "'v model \<Rightarrow> int \<Rightarrow> string \<Rightarrow> 'v result \<Rightarrow> (error + unit) \<times> 'v result" where
  "copy m step filterType =
     (if filterType = ''forwardFilter'' then
        run_all
          [put filteredObs filteredObs_update step (obs m),
           put predictedObs predictedObs_update step (pred_obs (prediction m)),
           put filteredObsVar filteredObsVar_update step (obsVar m),
           put predictedObsVar predictedObsVar_update step (pred_obsVar (prediction m)),
           put filteredState filteredState_update step (state m),
           put predictedState predictedState_update step (pred_state (prediction m)),
           put filteredCov filteredCov_update step (sysVar m),
           put predictedCov predictedCov_update step (pred_sysVar (prediction m)),
           put result_noiseVar result_noiseVar_update step (noiseVar m),
           put result_df result_df_update step (df m)]
      else if filterType = ''backwardSmoother'' then
        run_all
          [put smoothedState smoothedState_update step (state m),
           put smoothedObs smoothedObs_update step (obs m),
           put smoothedCov smoothedCov_update step (sysVar m),
           put smoothedObsVar smoothedObsVar_update step (obsVar m)]
      else run_all [])"

text \<open>\<^verbatim>\<open>_reverseCopy(model, result, step)\<close>, lines 512-526.\<close>

definition reverseCopy :: "'v result \<Rightarrow> int \<Rightarrow> 'v model \<Rightarrow> (error + unit) \<times> 'v model" where
  "reverseCopy r step =
     run_all
       [fetch (filteredObs r) step (\<lambda>v m. m\<lparr>obs := v\<rparr>),
        fetch (predictedObs r) step set_pred_obs,
        fetch (filteredObsVar r) step (\<lambda>v m. m\<lparr>obsVar := v\<rparr>),
        fetch (predictedObsVar r) step set_pred_obsVar,
        fetch (filteredState r) step (\<lambda>v m. m\<lparr>state := v\<rparr>),
        fetch (predictedState r) step set_pred_state,
        fetch (filteredCov r) step (\<lambda>v m. m\<lparr>sysVar := v\<rparr>),
        fetch (predictedCov r) step set_pred_sysVar,
        fetch (result_noiseVar r) step (\<lambda>v m. m\<lparr>noiseVar := v\<rparr>),
        fetch (result_df r) step (\<lambda>v m. m\<lparr>df := v\<rparr>)]"

section \<open>Statements on the engine\<close>

definition on_model ::
  "('v model \<Rightarrow> (error + 'a) \<times> 'v model) \<Rightarrow> 'v dlm \<Rightarrow> (error + 'a) \<times> 'v dlm" where
  "on_model act s =
     (case act (model (builder s)) of
        (x, m') \<Rightarrow> (x, s\<lparr>builder := (builder s)\<lparr>model := m'\<rparr>\<rparr>))"

definition on_result ::
  "('v result \<Rightarrow> (error + 'a) \<times> 'v result) \<Rightarrow> 'v dlm \<Rightarrow> (error + 'a) \<times> 'v dlm" where
  "on_result act s = (case act (result s) of (x, r') \<Rightarrow> (x, s\<lparr>result := r'\<rparr>))"

definition map_model :: "('v model \<Rightarrow> 'v model) \<Rightarrow> 'v dlm \<Rightarrow> 'v dlm" where
  "map_model f s = s\<lparr>builder := (builder s)\<lparr>model := f (model (builder s))\<rparr>\<rparr>"

text \<open>
  The guard \<^verbatim>\<open>len(dynamicComponents) > 0 or len(automaticComponents) > 0\<close> followed by
  \<^verbatim>\<open>self.builder.updateEvaluation(date)\<close>.
\<close>

definition refreshEvaluation :: "'v collaborators \<Rightarrow> int \<Rightarrow> 'v dlm \<Rightarrow> 'v dlm" where
  "refreshEvaluation ext date s =
     (if length (dynamicComponents (builder s)) > 0 \<or> length (automaticComponents (builder s)) > 0
      then map_model (\<lambda>m. m\<lparr>evaluation := builder_updateEvaluation ext date (evaluation m)\<rparr>) s
      else s)"

text \<open>\<^verbatim>\<open>_resetModelStatus()\<close>, lines 478-486.\<close>

definition resetModelStatus :: "'v collaborators \<Rightarrow> 'v dlm \<Rightarrow> 'v dlm" where
  "resetModelStatus ext s =
     map_model (\<lambda>m. model_initializeObservation ext
                  (m\<lparr>state := statePrior (builder s),
                     sysVar := sysVarPrior (builder s),
                     noiseVar := builder_noiseVar (builder s),
                     df := PyInt 1\<rparr>)) s"

text \<open>\<^verbatim>\<open>_setModelStatus(date)\<close>, lines 461-475.\<close>

definition setModelStatus :: "'v collaborators \<Rightarrow> int \<Rightarrow> 'v dlm \<Rightarrow> (error + unit) \<times> 'v dlm" where
  "setModelStatus ext date s =
     (if date < fst (filteredSteps (result s)) \<or> date > snd (filteredSteps (result s))
      then (Inl DateNotFiltered, s)
      else and_then (on_model (reverseCopy (result s) date) s)
             (\<lambda>u s'. (Inr (), refreshEvaluation ext date s')))"

text \<open>\<^verbatim>\<open>model.field = self.result.sel[step]\<close> and \<^verbatim>\<open>self.result.dst[step] = self.result.src[step]\<close>.\<close>

definition load ::
  "('v result \<Rightarrow> 'v pyval list) \<Rightarrow> int \<Rightarrow> ('v pyval \<Rightarrow> 'v model \<Rightarrow> 'v model)
     \<Rightarrow> 'v dlm \<Rightarrow> (error + unit) \<times> 'v dlm" where
  "load sel step wr s = on_model (fetch (sel (result s)) step wr) s"

definition move ::
  "('v result \<Rightarrow> 'v pyval list) \<Rightarrow> ('v result \<Rightarrow> 'v pyval list)
     \<Rightarrow> (('v pyval list \<Rightarrow> 'v pyval list) \<Rightarrow> 'v result \<Rightarrow> 'v result)
     \<Rightarrow> int \<Rightarrow> 'v dlm \<Rightarrow> (error + unit) \<times> 'v dlm" where
  "move src sel upd step s =
     (case getitem (src (result s)) step of
        Inl e \<Rightarrow> (Inl e, s)
      | Inr v \<Rightarrow> on_result (put sel upd step v) s)"

section \<open>The forward filter\<close>

datatype save = SaveAll | SaveAt int

text \<open>
  The renewal replay, lines 231-234: \<^verbatim>\<open>Filter.forwardFilter(model, data[innerStep])\<close> for
  every inner step.
\<close>

fun replay :: "'v collaborators \<Rightarrow> int list \<Rightarrow> 'v dlm \<Rightarrow> (error + unit) \<times> 'v dlm" where
  "replay ext [] s = (Inr (), s)"
| "replay ext (i # rest) s =
     (case getitem (dlm_data s) i of
        Inl e \<Rightarrow> (Inl e, s)
      | Inr y \<Rightarrow> replay ext rest (map_model (\<lambda>m. Filter_forwardFilter ext m y) s))"

text \<open>
  One pass of the loop of lines 219-245; the value is the new \<^verbatim>\<open>lastRenewPoint\<close>.
\<close>

definition renewIfNeeded ::
  "'v collaborators \<Rightarrow> bool \<Rightarrow> int \<Rightarrow> int \<Rightarrow> 'v dlm \<Rightarrow> (error + int) \<times> 'v dlm" where
  "renewIfNeeded ext renew lastRenewPoint step s =
     (if renew \<and> real_of_int (step - lastRenewPoint) > renewTerm (builder s)
            \<and> renewTerm (builder s) > 0
      then and_then
             (replay ext [step - py_int (renewTerm (builder s)) .. step - 1]
                (resetModelStatus ext s))
             (\<lambda>u s'. (Inr step, s'))
      else (Inr lastRenewPoint, s))"

definition filterStep ::
  "'v collaborators \<Rightarrow> save \<Rightarrow> bool \<Rightarrow> int \<Rightarrow> int \<Rightarrow> 'v dlm \<Rightarrow> (error + int) \<times> 'v dlm" where
  "filterStep ext sv renew lastRenewPoint step s =
     and_then (renewIfNeeded ext renew lastRenewPoint step (refreshEvaluation ext step s))
       (\<lambda>lastRenewPoint' s1.
          case getitem (dlm_data s1) step of
            Inl e \<Rightarrow> (Inl e, s1)
          | Inr y \<Rightarrow>
              (let s2 = map_model (\<lambda>m. Filter_forwardFilter ext m y) s1
               in if sv = SaveAll \<or> sv = SaveAt step
                  then and_then
                         (on_result (copy (model (builder s2)) step ''forwardFilter'') s2)
                         (\<lambda>u s3. (Inr lastRenewPoint', s3))
                  else (Inr lastRenewPoint', s2)))"

fun filterLoop ::
  "'v collaborators \<Rightarrow> save \<Rightarrow> bool \<Rightarrow> int \<Rightarrow> int list \<Rightarrow> 'v dlm \<Rightarrow> (error + unit) \<times> 'v dlm" where
  "filterLoop ext sv renew lastRenewPoint [] s = (Inr (), s)"
| "filterLoop ext sv renew lastRenewPoint (step # steps) s =
     (case filterStep ext sv renew lastRenewPoint step s of
        (Inl e, s') \<Rightarrow> (Inl e, s')
      | (Inr lastRenewPoint', s') \<Rightarrow> filterLoop ext sv renew lastRenewPoint' steps s')"

text \<open>
  \<^verbatim>\<open>_forwardFilter(start, end, save, ForgetPrevious, renew)\<close>, lines 158-247. The call
  returns \<^verbatim>\<open>None\<close> in every case it completes; \<^verbatim>\<open>filteredSteps\<close> is assigned only in
  the commented-out line 247.
\<close>

definition forwardFilter ::
  "'v collaborators \<Rightarrow> int \<Rightarrow> int option \<Rightarrow> save \<Rightarrow> bool \<Rightarrow> bool \<Rightarrow> 'v dlm
     \<Rightarrow> (error + unit) \<times> 'v dlm" where
  "forwardFilter ext start end sv ForgetPrevious renew s =
     (let end' = (case end of None \<Rightarrow> dlm_n s - 1 | Some e \<Rightarrow> e)
      in if start > end' then (Inr (), s)
         else and_then
                (if start = 0 \<or> ForgetPrevious then (Inr (), resetModelStatus ext s)
                 else if start > snd (filteredSteps (result s)) + 1
                      then (Inl DataBeforeStartNotFiltered, s)
                      else setModelStatus ext (start - 1) s)
                (\<lambda>u. filterLoop ext sv renew start [start .. end']))"

section \<open>The backward smoother\<close>

text \<open>Lines 268-272: the last index of the smoothing chain.\<close>

definition smootherEnd :: "int \<Rightarrow> int option \<Rightarrow> int" where
  "smootherEnd start days = (case days of None \<Rightarrow> 0 | Some d \<Rightarrow> max (start - d + 1) 0)"

text \<open>Lines 280-289; the value is \<^verbatim>\<open>start\<close> as the branch leaves it.\<close>

definition smoothInit :: "int \<Rightarrow> bool \<Rightarrow> 'v dlm \<Rightarrow> (error + int) \<times> 'v dlm" where
  "smoothInit start ignoreFuture s =
     (if start = dlm_n s - 1 \<or> ignoreFuture then
        and_then
          (run_all
             [move filteredState smoothedState smoothedState_update start,
              move filteredObs smoothedObs smoothedObs_update start,
              move filteredCov smoothedCov smoothedCov_update start,
              move filteredObsVar smoothedObsVar smoothedObsVar_update start,
              load result_noiseVar start (\<lambda>v m. m\<lparr>noiseVar := v\<rparr>)] s)
          (\<lambda>u s'. (Inr (start - 1), s'))
      else and_then (load result_noiseVar (dlm_n s - 1) (\<lambda>v m. m\<lparr>noiseVar := v\<rparr>) s)
             (\<lambda>u s'. (Inr start, s')))"

text \<open>Lines 314-317: both raw moments are read, then the smoother runs on the model.\<close>

definition smoothCall :: "'v collaborators \<Rightarrow> int \<Rightarrow> 'v dlm \<Rightarrow> (error + unit) \<times> 'v dlm" where
  "smoothCall ext day s =
     (case getitem (filteredState (result s)) day of
        Inl e \<Rightarrow> (Inl e, s)
      | Inr rawState \<Rightarrow>
          (case getitem (filteredCov (result s)) day of
             Inl e \<Rightarrow> (Inl e, s)
           | Inr rawSysVar \<Rightarrow>
               (Inr (), map_model (\<lambda>m. Filter_backwardSmoother ext m rawState rawSysVar) s)))"

text \<open>One pass of the loop of lines 302-323.\<close>

definition smoothStep :: "'v collaborators \<Rightarrow> int \<Rightarrow> 'v dlm \<Rightarrow> (error + unit) \<times> 'v dlm" where
  "smoothStep ext day =
     run_all
       [load predictedState (day + 1) set_pred_state,
        load predictedCov (day + 1) set_pred_sysVar,
        (\<lambda>s. (Inr (), refreshEvaluation ext day s)),
        smoothCall ext day,
        (\<lambda>s. on_result (copy (model (builder s)) day ''backwardSmoother'') s)]"

text \<open>\<^verbatim>\<open>_backwardSmoother(start, days, ignoreFuture)\<close>, lines 252-323.\<close>

definition backwardSmoother ::
  "'v collaborators \<Rightarrow> int option \<Rightarrow> int option \<Rightarrow> bool \<Rightarrow> 'v dlm \<Rightarrow> (error + unit) \<times> 'v dlm" where
  "backwardSmoother ext start days ignoreFuture s =
     (let start0 = (case start of None \<Rightarrow> dlm_n s - 1 | Some x \<Rightarrow> x);
          end = smootherEnd start0 days
      in if snd (filteredSteps (result s)) < start0 then (Inl LastDayNotFiltered, s)
         else and_then (smoothInit start0 ignoreFuture s)
                (\<lambda>start1 s1.
                   if start1 < end then (Inr (), s1)
                   else and_then
                          (run_all
                             [load smoothedState (start1 + 1) (\<lambda>v m. m\<lparr>state := v\<rparr>),
                              load smoothedCov (start1 + 1) (\<lambda>v m. m\<lparr>sysVar := v\<rparr>)] s1)
                          (\<lambda>u. run_all (map (smoothStep ext) (rev [end .. start1])))))"

section \<open>Prediction\<close>

text \<open>One pass of the loop of lines 349-357, and the loop.\<close>

fun predictLoop ::
  "'v collaborators \<Rightarrow> int \<Rightarrow> int list \<Rightarrow> 'v pyval list \<times> 'v pyval list \<Rightarrow> 'v dlm
     \<Rightarrow> (error + 'v pyval list \<times> 'v pyval list) \<times> 'v dlm" where
  "predictLoop ext date [] acc s = (Inr acc, s)"
| "predictLoop ext date (i # rest) (obsList, varList) s =
     (let s1 = map_model (Filter_predict ext) (refreshEvaluation ext (date + i) s)
      in case setitem obsList (i - 1) (pred_obs (prediction (model (builder s1)))) of
           Inl e \<Rightarrow> (Inl e, s1)
         | Inr obsList' \<Rightarrow>
             (case setitem varList (i - 1)
                     (pred_obsVar (prediction (model (builder s1)))) of
                Inl e \<Rightarrow> (Inl e, s1)
              | Inr varList' \<Rightarrow>
                  predictLoop ext date rest (obsList', varList') s1))"

text \<open>\<^verbatim>\<open>_predictInSample(date, days)\<close>, lines 328-359.\<close>

definition predictInSample ::
  "'v collaborators \<Rightarrow> int \<Rightarrow> int \<Rightarrow> 'v dlm
     \<Rightarrow> (error + 'v pyval list \<times> 'v pyval list) \<times> 'v dlm" where
  "predictInSample ext date days s =
     (if date + days > dlm_n s - 1 then (Inl RangeOutOfSample, s)
      else and_then (setModelStatus ext date s)
             (\<lambda>u s1. predictLoop ext date [1 .. days - 1]
                        (replicate (nat days) PyNone, replicate (nat days) PyNone)
                        (map_model (set_pred_step 0) s1)))"

text \<open>
  The model after the forecast steps of the loop of lines 349-357: each step refreshes
  the evaluation for \<^verbatim>\<open>date + i\<close> and calls \<^verbatim>\<open>Filter.predict\<close> (lines 351-355).
\<close>

definition predictStep :: "'v collaborators \<Rightarrow> int \<Rightarrow> int \<Rightarrow> 'v dlm \<Rightarrow> 'v dlm" where
  "predictStep ext date i s = map_model (Filter_predict ext) (refreshEvaluation ext (date + i) s)"

fun forecastState :: "'v collaborators \<Rightarrow> int \<Rightarrow> int list \<Rightarrow> 'v dlm \<Rightarrow> 'v dlm" where
  "forecastState ext date [] s = s"
| "forecastState ext date (i # rest) s = forecastState ext date rest (predictStep ext date i s)"

text \<open>
  \<^verbatim>\<open>model.evaluation[0, componentIndex[i][0]:(componentIndex[i][1] + 1)] = feature\<close>.
\<close>

definition assignComponent :: "string \<Rightarrow> 'v pyval list \<Rightarrow> 'v dlm \<Rightarrow> (error + unit) \<times> 'v dlm" where
  "assignComponent i feature s =
     (case componentIndex (builder s) i of
        None \<Rightarrow> (Inl KeyError, s)
      | Some (lo, hi) \<Rightarrow>
          (case assign_slice (evaluation (model (builder s))) lo (hi + 1) feature of
             Inl e \<Rightarrow> (Inl e, s)
           | Inr row \<Rightarrow> (Inr (), map_model (\<lambda>m. m\<lparr>evaluation := row\<rparr>) s)))"

text \<open>The body of the two loops of lines 426-456, for the component named \<open>i\<close>.\<close>

definition writeComponent ::
  "'v collaborators \<Rightarrow> (string \<rightharpoonup> 'v pyval list) \<Rightarrow> int option \<Rightarrow> string \<Rightarrow> 'v dlm
     \<Rightarrow> (error + unit) \<times> 'v dlm" where
  "writeComponent ext featureDict date i s =
     (case featureDict i of
        Some feature \<Rightarrow> assignComponent i feature s
      | None \<Rightarrow>
          (case date of
             None \<Rightarrow> (Inl (NoDateNoFeature i), s)
           | Some d \<Rightarrow> assignComponent i (comp_updateEvaluation ext i d) s))"

text \<open>\<^verbatim>\<open>_constructEvaluationForPrediction(featureDict, date)\<close>, lines 414-457.\<close>

definition constructEvaluationForPrediction ::
  "'v collaborators \<Rightarrow> (string \<rightharpoonup> 'v pyval list) option \<Rightarrow> int option \<Rightarrow> 'v dlm
     \<Rightarrow> (error + unit) \<times> 'v dlm" where
  "constructEvaluationForPrediction ext featureDict date s =
     (case featureDict of
        None \<Rightarrow>
          (case date of
             None \<Rightarrow> (Inl FeatureDictAndDateBothNone, s)
           | Some d \<Rightarrow>
               (Inr (), map_model (\<lambda>m. m\<lparr>evaluation := builder_updateEvaluation ext d (evaluation m)\<rparr>) s))
      | Some fd \<Rightarrow>
          and_then
            (run_all (map (writeComponent ext fd date) (map fst (dynamicComponents (builder s)))) s)
            (\<lambda>u. run_all (map (writeComponent ext fd date)
                            (map fst (automaticComponents (builder s))))))"

text \<open>\<^verbatim>\<open>_oneDayAheadPredict(date, featureDict)\<close>, lines 367-379.\<close>

definition oneDayAheadPredict ::
  "'v collaborators \<Rightarrow> int \<Rightarrow> (string \<rightharpoonup> 'v pyval list) option \<Rightarrow> 'v dlm
     \<Rightarrow> (error + 'v pyval \<times> 'v pyval) \<times> 'v dlm" where
  "oneDayAheadPredict ext date featureDict s =
     (if date > dlm_n s - 1 then (Inl DateBeyondDataRange, s)
      else and_then (setModelStatus ext date s)
             (\<lambda>u s1. and_then (constructEvaluationForPrediction ext featureDict (Some (date + 1)) s1)
                (\<lambda>u s2.
                   let s3 = map_model (Filter_predict ext) (map_model (set_pred_step 0) s2);
                       obsNow = pred_obs (prediction (model (builder s3)));
                       varNow = pred_obsVar (prediction (model (builder s3)))
                   in (Inr (obsNow, varNow),
                       s3\<lparr>result := (result s3)\<lparr>predictStatus :=
                             Some (date, date + 1, [obsNow])\<rparr>\<rparr>))))"

text \<open>
  The loop of lines 389-403 over \<^verbatim>\<open>builder.automaticComponents\<close>, on the forecast
  sequence \<^verbatim>\<open>self.result.predictStatus[2]\<close>. When that sequence is shorter than
  \<^verbatim>\<open>comp.d\<close>, line 397 evaluates \<^verbatim>\<open>self.predictStatus[2]\<close>: an attribute of the
  engine, which it does not have, so the lookup raises \<^verbatim>\<open>AttributeError\<close> before the
  slice of line 398 is reached.
\<close>

fun autoRegFeatures ::
  "(string \<times> component) list \<Rightarrow> 'v pyval list \<Rightarrow> (string \<rightharpoonup> 'v pyval list) option
     \<Rightarrow> error + (string \<rightharpoonup> 'v pyval list) option" where
  "autoRegFeatures [] forecasts featureDict = Inr featureDict"
| "autoRegFeatures ((name, c) # rest) forecasts featureDict =
     (if componentType c \<noteq> ''autoReg'' then autoRegFeatures rest forecasts featureDict
      else if int (length forecasts) \<ge> comp_d c
      then autoRegFeatures rest forecasts
             (Some ((case featureDict of None \<Rightarrow> Map.empty | Some fd \<Rightarrow> fd)
                      (name \<mapsto> py_slice_from forecasts (- comp_d c))))
      else Inl AttributeError)"

text \<open>Lines 410-411: \<^verbatim>\<open>predictStatus[1] += 1\<close> and \<^verbatim>\<open>predictStatus[2].append(predictedObs)\<close>.\<close>

definition advanceStatus :: "'v pyval \<Rightarrow> 'v dlm \<Rightarrow> (error + unit) \<times> 'v dlm" where
  "advanceStatus obsNow s =
     (case predictStatus (result s) of
        None \<Rightarrow> (Inl TypeError, s)
      | Some (baseDate, currentDate, forecasts) \<Rightarrow>
          (Inr (), s\<lparr>result := (result s)\<lparr>predictStatus :=
                      Some (baseDate, currentDate + 1, forecasts @ [obsNow])\<rparr>\<rparr>))"

text \<open>\<^verbatim>\<open>_continuePredict(featureDict)\<close>, lines 381-412.\<close>

definition continuePredict ::
  "'v collaborators \<Rightarrow> (string \<rightharpoonup> 'v pyval list) option \<Rightarrow> 'v dlm
     \<Rightarrow> (error + 'v pyval \<times> 'v pyval) \<times> 'v dlm" where
  "continuePredict ext featureDict s =
     (case predictStatus (result s) of
        None \<Rightarrow> (Inl ContinuePredictWithoutOneDayAhead, s)
      | Some (baseDate, currentDate, forecasts) \<Rightarrow>
          (case autoRegFeatures (automaticComponents (builder s)) forecasts featureDict of
             Inl e \<Rightarrow> (Inl e, s)
           | Inr featureDict' \<Rightarrow>
               and_then (constructEvaluationForPrediction ext featureDict' (Some (currentDate + 1)) s)
                 (\<lambda>u s1.
                    let s2 = map_model (Filter_predict ext) s1;
                        obsNow = pred_obs (prediction (model (builder s2)));
                        varNow = pred_obsVar (prediction (model (builder s2)))
                    in and_then (advanceStatus obsNow s2)
                         (\<lambda>u s3. (Inr (obsNow, varNow), s3)))))"

text \<open>\<open>m\<close> calls of \<^verbatim>\<open>_continuePredict\<close> in a row, each with its own \<^verbatim>\<open>featureDict\<close>.\<close>

fun continuePredicts ::
  "'v collaborators \<Rightarrow> (string \<rightharpoonup> 'v pyval list) option list \<Rightarrow> 'v dlm
     \<Rightarrow> (error + unit) \<times> 'v dlm" where
  "continuePredicts ext [] s = (Inr (), s)"
| "continuePredicts ext (fd # fds) s =
     (case continuePredict ext fd s of
        (Inl e, s') \<Rightarrow> (Inl e, s')
      | (Inr r, s') \<Rightarrow> continuePredicts ext fds s')"

section \<open>Calls and their outcome\<close>

text \<open>
  A call of one of the engine's operations, and what the caller sees of it: the exception
  it raised, if any, and the state it left.
\<close>

datatype 'v call =
    ForwardFilter int "int option" save bool bool
  | BackwardSmoother "int option" "int option" bool
  | PredictInSample int int
  | OneDayAheadPredict int "(string \<rightharpoonup> 'v pyval list) option"
  | ContinuePredict "(string \<rightharpoonup> 'v pyval list) option"
  | ConstructEvaluationForPrediction "(string \<rightharpoonup> 'v pyval list) option" "int option"
  | SetModelStatus int

definition raised :: "(error + 'a) \<times> 's \<Rightarrow> error option \<times> 's" where
  "raised r = (case r of (Inl e, s) \<Rightarrow> (Some e, s) | (Inr a, s) \<Rightarrow> (None, s))"

fun perform :: "'v collaborators \<Rightarrow> 'v call \<Rightarrow> 'v dlm \<Rightarrow> error option \<times> 'v dlm" where
  "perform ext (ForwardFilter start end sv ForgetPrevious renew) s =
     raised (forwardFilter ext start end sv ForgetPrevious renew s)"
| "perform ext (BackwardSmoother start days ignoreFuture) s =
     raised (backwardSmoother ext start days ignoreFuture s)"
| "perform ext (PredictInSample date days) s = raised (predictInSample ext date days s)"
| "perform ext (OneDayAheadPredict date featureDict) s =
     raised (oneDayAheadPredict ext date featureDict s)"
| "perform ext (ContinuePredict featureDict) s = raised (continuePredict ext featureDict s)"
| "perform ext (ConstructEvaluationForPrediction featureDict date) s =
     raised (constructEvaluationForPrediction ext featureDict date s)"
| "perform ext (SetModelStatus date) s = raised (setModelStatus ext date s)"

text \<open>The ten lists that \<^verbatim>\<open>_reverseCopy\<close> reads all have an entry at \<open>step\<close>.\<close>

definition has_snapshot :: "'v result \<Rightarrow> int \<Rightarrow> bool" where
  "has_snapshot r step =
     (py_index (filteredObs r) step \<noteq> None \<and> py_index (predictedObs r) step \<noteq> None
      \<and> py_index (filteredObsVar r) step \<noteq> None \<and> py_index (predictedObsVar r) step \<noteq> None
      \<and> py_index (filteredState r) step \<noteq> None \<and> py_index (predictedState r) step \<noteq> None
      \<and> py_index (filteredCov r) step \<noteq> None \<and> py_index (predictedCov r) step \<noteq> None
      \<and> py_index (result_noiseVar r) step \<noteq> None \<and> py_index (result_df r) step \<noteq> None)"

text \<open>
  What the ledger holds at index \<open>i\<close> of the four smoothed lists, together with the four
  filtered lists.
\<close>

definition boundary ::
  "int \<Rightarrow> 'v result \<Rightarrow>
     (error + 'v pyval) \<times> (error + 'v pyval) \<times> (error + 'v pyval) \<times> (error + 'v pyval)
       \<times> 'v pyval list \<times> 'v pyval list \<times> 'v pyval list \<times> 'v pyval list" where
  "boundary i r =
     (getitem (smoothedState r) i, getitem (smoothedObs r) i, getitem (smoothedCov r) i,
      getitem (smoothedObsVar r) i,
      filteredState r, filteredObs r, filteredCov r, filteredObsVar r)"

text \<open>
  The model holds the snapshot of the ledger at \<open>step\<close>: each of the ten fields that
  \<^verbatim>\<open>_reverseCopy\<close> assigns is the ledger's entry at \<open>step\<close>.
\<close>

definition restored :: "'v result \<Rightarrow> int \<Rightarrow> 'v model \<Rightarrow> bool" where
  "restored r step m =
     (getitem (filteredObs r) step = Inr (obs m)
      \<and> getitem (predictedObs r) step = Inr (pred_obs (prediction m))
      \<and> getitem (filteredObsVar r) step = Inr (obsVar m)
      \<and> getitem (predictedObsVar r) step = Inr (pred_obsVar (prediction m))
      \<and> getitem (filteredState r) step = Inr (state m)
      \<and> getitem (predictedState r) step = Inr (pred_state (prediction m))
      \<and> getitem (filteredCov r) step = Inr (sysVar m)
      \<and> getitem (predictedCov r) step = Inr (pred_sysVar (prediction m))
      \<and> getitem (result_noiseVar r) step = Inr (noiseVar m)
      \<and> getitem (result_df r) step = Inr (df m))"

text \<open>
  The fourteen lists of the ledger all have \<open>k\<close> entries, as \<^verbatim>\<open>_result.__init__\<close>,
  \<^verbatim>\<open>_appendResult\<close> and \<^verbatim>\<open>_popout\<close> keep them.
\<close>

definition ledger_sized :: "nat \<Rightarrow> 'v result \<Rightarrow> bool" where
  "ledger_sized k r =
     (length (filteredObs r) = k \<and> length (predictedObs r) = k \<and> length (smoothedObs r) = k
      \<and> length (filteredObsVar r) = k \<and> length (predictedObsVar r) = k
      \<and> length (smoothedObsVar r) = k \<and> length (result_noiseVar r) = k
      \<and> length (result_df r) = k \<and> length (filteredState r) = k
      \<and> length (predictedState r) = k \<and> length (smoothedState r) = k
      \<and> length (filteredCov r) = k \<and> length (predictedCov r) = k
      \<and> length (smoothedCov r) = k)"

section \<open>Example engines\<close>

text \<open>
  Collaborators over integer values: the filter stores the observation as the state, the
  prediction takes the state and its covariance as the predicted observation and its
  variance, the smoother takes the raw moments.
\<close>

definition demo_ext :: "int collaborators" where
  "demo_ext =
     \<lparr> Filter_forwardFilter = (\<lambda>m y. m\<lparr>state := y, obs := y\<rparr>),
       Filter_predict = (\<lambda>m. set_pred_obsVar (sysVar m) (set_pred_obs (state m) m)),
       Filter_backwardSmoother = (\<lambda>m rawState rawSysVar. m\<lparr>state := rawState, sysVar := rawSysVar\<rparr>),
       model_initializeObservation = (\<lambda>m. m),
       builder_updateEvaluation = (\<lambda>date row. row),
       comp_updateEvaluation = (\<lambda>name date. [PyInt date]) \<rparr>"

definition demo_model :: "int model" where
  "demo_model =
     \<lparr> state = PyNone, sysVar = PyNone, noiseVar = PyNone, df = PyNone, obs = PyNone,
       obsVar = PyNone, evaluation = [PyInt 1],
       prediction = \<lparr> pred_state = PyNone, pred_sysVar = PyNone, pred_obs = PyNone,
                      pred_obsVar = PyNone, pred_step = 0 \<rparr> \<rparr>"

definition demo_builder :: "int builder" where
  "demo_builder =
     \<lparr> model = demo_model, statePrior = PyVal 0, sysVarPrior = PyVal 1,
       builder_noiseVar = PyVal 1, renewTerm = 0, dynamicComponents = [],
       automaticComponents = [], componentIndex = Map.empty \<rparr>"

text \<open>A series of three observations, nothing filtered yet.\<close>

definition demo_dlm :: "int dlm" where
  "demo_dlm =
     \<lparr> dlm_data = [PyVal 1, PyVal 2, PyVal 3], dlm_n = 3, result = init_result 3,
       builder = demo_builder \<rparr>"

text \<open>
  The same engine after \<^verbatim>\<open>_forwardFilter()\<close> over the whole series, with
  \<^verbatim>\<open>filteredSteps\<close> set to \<^verbatim>\<open>[0, n - 1]\<close> as the caller of \<^verbatim>\<open>_forwardFilter\<close> does.
\<close>

definition demo_filtered :: "int dlm" where
  "demo_filtered =
     (let s = snd (forwardFilter demo_ext 0 None SaveAll False False demo_dlm)
      in s\<lparr>result := (result s)\<lparr>filteredSteps := (0, dlm_n s - 1)\<rparr>\<rparr>)"

text \<open>
  An engine with two dynamic components and an autoregressive component of lag order 2,
  one forecast into an incremental prediction.
\<close>

definition demo_components :: "int dlm" where
  "demo_components =
     demo_dlm
       \<lparr> result := (init_result 3)\<lparr>filteredSteps := (0, 2), predictStatus := Some (2, 3, [PyVal 5])\<rparr>,
         builder := demo_builder
           \<lparr> model := demo_model\<lparr>evaluation := [PyInt 0, PyInt 0, PyInt 0, PyInt 0]\<rparr>,
             dynamicComponents :=
               [(''a'', \<lparr>componentType = ''dynamic'', comp_d = 0\<rparr>),
                (''b'', \<lparr>componentType = ''dynamic'', comp_d = 0\<rparr>)],
             automaticComponents := [(''ar'', \<lparr>componentType = ''autoReg'', comp_d = 2\<rparr>)],
             componentIndex := [''a'' \<mapsto> (0, 0), ''b'' \<mapsto> (1, 1), ''ar'' \<mapsto> (2, 3)] \<rparr> \<rparr>"

section \<open>Basic facts\<close>

lemma and_then_Inl [simp]: "and_then (Inl e, s) f = (Inl e, s)"
  by (simp add: and_then_def)

lemma and_then_Inr [simp]: "and_then (Inr a, s) f = f a s"
  by (simp add: and_then_def)

lemma smootherEnd_nonneg: "0 \<le> smootherEnd start days"
  by (simp add: smootherEnd_def split: option.splits)

section \<open>The smoothing range\<close>

text \<open>
  Claim C10. When \<^verbatim>\<open>_backwardSmoother\<close> is asked for more days than there are up to
  \<^verbatim>\<open>start\<close> (\<^verbatim>\<open>days > start + 1\<close>, with \<^verbatim>\<open>start\<close> defaulting to \<^verbatim>\<open>n - 1\<close>), the last
  index of the smoothing chain is clamped to 0, and the call does exactly what the call
  without \<^verbatim>\<open>days\<close> does: the excess is no error of its own and no index below 0 is used.
\<close>

theorem backwardSmoother_days_clamped:
  assumes "days > (case start of None \<Rightarrow> dlm_n s - 1 | Some x \<Rightarrow> x) + 1"
  shows "smootherEnd (case start of None \<Rightarrow> dlm_n s - 1 | Some x \<Rightarrow> x) (Some days) = 0
         \<and> backwardSmoother ext start (Some days) ignoreFuture s
             = backwardSmoother ext start None ignoreFuture s"
proof -
  have e: "smootherEnd (case start of None \<Rightarrow> dlm_n s - 1 | Some x \<Rightarrow> x) (Some days) = 0"
    using assms by (simp add: smootherEnd_def)
  have n: "smootherEnd (case start of None \<Rightarrow> dlm_n s - 1 | Some x \<Rightarrow> x) None = 0"
    by (simp add: smootherEnd_def)
  show ?thesis
    unfolding backwardSmoother_def Let_def e n by simp
qed

theorem backwardSmoother_days_clamped_witness:
  "(5::int) > (case Some 2 of None \<Rightarrow> dlm_n demo_filtered - 1 | Some x \<Rightarrow> x) + 1
   \<and> smootherEnd (case Some 2 of None \<Rightarrow> dlm_n demo_filtered - 1 | Some x \<Rightarrow> x) (Some 5) = 0
   \<and> backwardSmoother demo_ext (Some 2) (Some 5) False demo_filtered
       = backwardSmoother demo_ext (Some 2) None False demo_filtered
   \<and> fst (backwardSmoother demo_ext (Some 2) (Some 5) False demo_filtered) = Inr ()"
proof -
  have h: "(5::int) > (case Some 2 of None \<Rightarrow> dlm_n demo_filtered - 1 | Some x \<Rightarrow> x) + 1"
    by simp
  have r: "fst (backwardSmoother demo_ext (Some 2) (Some 5) False demo_filtered) = Inr ()"
    by code_simp
  from backwardSmoother_days_clamped [OF h, of demo_ext False] h r show ?thesis
    by blast
qed

section \<open>Facts about sequencing, list access and copying\<close>

lemma and_then_keeps:
  assumes "g (snd r) = g0" and "\<And>a s. g s = g0 \<Longrightarrow> g (snd (f a s)) = g0"
  shows "g (snd (and_then r f)) = g0"
proof (cases r)
  case (Pair x s1)
  then show ?thesis using assms by (cases x) auto
qed

lemma and_then_error:
  assumes "fst (and_then r f) = Inl e"
    and "fst r = Inl e \<Longrightarrow> P" and "\<And>a s. fst (f a s) = Inl e \<Longrightarrow> P"
  shows P
proof (cases r)
  case (Pair x s1)
  then show ?thesis using assms by (cases x) auto
qed

lemma run_all_keeps:
  assumes "list_all (\<lambda>a. \<forall>s. g (snd (a s)) = g s) acts"
  shows "g (snd (run_all acts s)) = g s"
  using assms
proof (induction acts arbitrary: s)
  case Nil
  then show ?case by simp
next
  case (Cons a acts)
  obtain x s1 where a: "a s = (x, s1)" by (cases "a s")
  have "\<forall>s. g (snd (a s)) = g s" using Cons.prems by simp
  then have g1: "g s1 = g s" using a by (metis snd_conv)
  have rest: "list_all (\<lambda>a. \<forall>s. g (snd (a s)) = g s) acts" using Cons.prems by simp
  show ?case
  proof (cases x)
    case (Inl e)
    then show ?thesis using a g1 by simp
  next
    case (Inr u)
    then show ?thesis using a g1 Cons.IH [OF rest, of s1] by simp
  qed
qed

lemma run_all_error:
  assumes "fst (run_all acts s) = Inl e"
    and "list_all (\<lambda>a. \<forall>s. fst (a s) = Inl e \<longrightarrow> P) acts"
  shows P
  using assms
proof (induction acts arbitrary: s)
  case Nil
  then show ?case by simp
next
  case (Cons a acts)
  obtain x s1 where a: "a s = (x, s1)" by (cases "a s")
  have rest: "list_all (\<lambda>a. \<forall>s. fst (a s) = Inl e \<longrightarrow> P) acts" using Cons.prems by simp
  have here: "fst (a s) = Inl e \<longrightarrow> P" using Cons.prems(2) by auto
  show ?case
  proof (cases x)
    case (Inl e')
    then show ?thesis using Cons.prems(1) a here by simp
  next
    case (Inr u)
    then have "fst (run_all acts s1) = Inl e" using Cons.prems(1) a by simp
    then show ?thesis using Cons.IH rest by blast
  qed
qed

lemma getitem_error: "getitem xs i = Inl e \<Longrightarrow> e = IndexError"
  by (auto simp: getitem_def split: option.splits)

lemma setitem_error: "setitem xs i v = Inl e \<Longrightarrow> e = IndexError"
  by (auto simp: setitem_def split: option.splits)

lemma put_error: "fst (put sel upd step v r) = Inl e \<Longrightarrow> e = IndexError"
  by (auto simp: put_def dest: setitem_error split: sum.splits)

lemma fetch_error: "fst (fetch xs step wr m) = Inl e \<Longrightarrow> e = IndexError"
  by (auto simp: fetch_def dest: getitem_error split: sum.splits)

lemma put_keeps:
  assumes "\<And>f r. g (upd f r) = g r"
  shows "g (snd (put sel upd step v r)) = g r"
  using assms by (simp add: put_def split: sum.splits)


lemma copy_error: "fst (copy m step filterType r) = Inl e \<Longrightarrow> e = IndexError"
  unfolding copy_def
  by (auto simp del: run_all.simps elim!: run_all_error [where P = "e = IndexError"]
        dest: put_error split: if_splits)

lemma copy_filteredSteps: "filteredSteps (snd (copy m step filterType r)) = filteredSteps r"
  unfolding copy_def
  by (simp add: run_all_keeps [where g = filteredSteps] put_keeps del: run_all.simps)

lemma copy_predictStatus: "predictStatus (snd (copy m step filterType r)) = predictStatus r"
  unfolding copy_def
  by (simp add: run_all_keeps [where g = predictStatus] put_keeps del: run_all.simps)

lemma reverseCopy_error: "fst (reverseCopy r step m) = Inl e \<Longrightarrow> e = IndexError"
  unfolding reverseCopy_def
  by (auto simp del: run_all.simps elim!: run_all_error [where P = "e = IndexError"]
        dest: fetch_error)

lemma result_map_model [simp]: "result (map_model f s) = result s"
  by (simp add: map_model_def)

lemma result_on_model [simp]: "result (snd (on_model act s)) = result s"
  by (simp add: on_model_def split: prod.splits)

lemma fst_on_model [simp]: "fst (on_model act s) = fst (act (model (builder s)))"
  by (simp add: on_model_def split: prod.splits)

lemma fst_on_result [simp]: "fst (on_result act s) = fst (act (result s))"
  by (simp add: on_result_def split: prod.splits)

lemma result_on_result [simp]: "result (snd (on_result act s)) = snd (act (result s))"
  by (simp add: on_result_def split: prod.splits)

lemma result_refreshEvaluation [simp]: "result (refreshEvaluation ext date s) = result s"
  by (simp add: refreshEvaluation_def)

lemma result_resetModelStatus [simp]: "result (resetModelStatus ext s) = result s"
  by (simp add: resetModelStatus_def)

lemma setModelStatus_result: "result (snd (setModelStatus ext date s)) = result s"
  unfolding setModelStatus_def
  by (simp add: and_then_keeps [where g = result])

lemma and_thenE:
  assumes "and_then r f = (x, s')"
  obtains (raised) e where "r = (Inl e, s')" and "x = Inl e"
        | (went_on) a s1 where "r = (Inr a, s1)" and "f a s1 = (x, s')"
proof (cases r)
  case (Pair y s1)
  then show ?thesis using assms that by (cases y) auto
qed

lemma setModelStatus_error:
  assumes "setModelStatus ext date s = (Inl e, s')"
  shows "(e = DateNotFiltered \<and> s' = s) \<or> e = IndexError"
proof (cases "date < fst (filteredSteps (result s)) \<or> date > snd (filteredSteps (result s))")
  case True
  then show ?thesis using assms by (simp add: setModelStatus_def)
next
  case False
  then have "and_then (on_model (reverseCopy (result s) date) s)
               (\<lambda>u s'. (Inr (), refreshEvaluation ext date s')) = (Inl e, s')"
    using assms by (simp add: setModelStatus_def)
  then show ?thesis
  proof (cases rule: and_thenE)
    case (raised e')
    then have "fst (reverseCopy (result s) date (model (builder s))) = Inl e"
      by (metis fst_conv fst_on_model)
    then show ?thesis using reverseCopy_error by blast
  next
    case (went_on a s1)
    then show ?thesis by simp
  qed
qed


lemma replay_result: "result (snd (replay ext steps s)) = result s"
proof (induction steps arbitrary: s)
  case Nil
  then show ?case by simp
next
  case (Cons i rest)
  then show ?case by (cases "getitem (dlm_data s) i") simp_all
qed

lemma renewIfNeeded_result: "result (snd (renewIfNeeded ext renew lastRenewPoint step s)) = result s"
  unfolding renewIfNeeded_def
  by (simp add: and_then_keeps [where g = result] replay_result)

lemma filterStep_filteredSteps:
  "filteredSteps (result (snd (filterStep ext sv renew lastRenewPoint step s)))
     = filteredSteps (result s)"
  unfolding filterStep_def
proof (rule and_then_keeps [where g = "\<lambda>s. filteredSteps (result s)"])
  show "filteredSteps (result (snd (renewIfNeeded ext renew lastRenewPoint step
           (refreshEvaluation ext step s)))) = filteredSteps (result s)"
    by (simp add: renewIfNeeded_result)
next
  fix a s1
  assume g: "filteredSteps (result (s1 :: 'a dlm)) = filteredSteps (result s)"
  show "filteredSteps (result (snd (case getitem (dlm_data s1) step of
            Inl e \<Rightarrow> (Inl e, s1)
          | Inr y \<Rightarrow>
              (let s2 = map_model (\<lambda>m. Filter_forwardFilter ext m y) s1
               in if sv = SaveAll \<or> sv = SaveAt step
                  then and_then
                         (on_result (copy (model (builder s2)) step ''forwardFilter'') s2)
                         (\<lambda>u s3. (Inr a, s3))
                  else (Inr a, s2))))) = filteredSteps (result s)"
    using g
    by (cases "getitem (dlm_data s1) step")
       (simp_all add: Let_def and_then_keeps [where g = "\<lambda>s. filteredSteps (result s)"]
          copy_filteredSteps)
qed

lemma filterLoop_filteredSteps:
  "filteredSteps (result (snd (filterLoop ext sv renew lastRenewPoint steps s)))
     = filteredSteps (result s)"
proof (induction steps arbitrary: lastRenewPoint s)
  case Nil
  then show ?case by simp
next
  case (Cons step steps)
  obtain x s1 where st: "filterStep ext sv renew lastRenewPoint step s = (x, s1)"
    by (cases "filterStep ext sv renew lastRenewPoint step s")
  have g1: "filteredSteps (result s1) = filteredSteps (result s)"
    using filterStep_filteredSteps [of ext sv renew lastRenewPoint step s] st by simp
  show ?case
  proof (cases x)
    case (Inl e)
    then show ?thesis using st g1 by simp
  next
    case (Inr l)
    then show ?thesis using st g1 Cons.IH [of l s1] by simp
  qed
qed

lemma forwardFilter_filteredSteps:
  "filteredSteps (result (snd (forwardFilter ext start end sv ForgetPrevious renew s)))
     = filteredSteps (result s)"
  unfolding forwardFilter_def Let_def
  by (simp add: and_then_keeps [where g = "\<lambda>s. filteredSteps (result s)"]
        filterLoop_filteredSteps setModelStatus_result)

section \<open>The filtered range under the forward filter\<close>

text \<open>
  Claim C1, as amended. \<^verbatim>\<open>_forwardFilter\<close> never writes \<^verbatim>\<open>filteredSteps\<close>: whatever
  the range, the save mode and \<^verbatim>\<open>ForgetPrevious\<close>, and whether the call completes or
  raises, the ledger's \<^verbatim>\<open>filteredSteps\<close> is afterwards what it was before (the
  assignment at the end of the method is commented out; the range is maintained by the
  caller).
\<close>

theorem forwardFilter_leaves_filteredSteps:
  "filteredSteps (result (snd (forwardFilter ext start end sv ForgetPrevious renew s)))
     = filteredSteps (result s)"
  by (rule forwardFilter_filteredSteps)

theorem forwardFilter_leaves_filteredSteps_witness:
  "filteredSteps (result (snd (forwardFilter demo_ext 0 None SaveAll False False demo_dlm)))
     = filteredSteps (result demo_dlm)"
  by (rule forwardFilter_leaves_filteredSteps)

text \<open>
  The claim as stated fails: filtering \<open>[0, 2]\<close> on a fresh ledger completes and leaves the
  upper bound at \<open>-1\<close>, not at \<open>2\<close>; re-filtering \<open>[0, 1]\<close> with \<^verbatim>\<open>ForgetPrevious\<close> on a
  ledger whose range is \<open>[0, 2]\<close> completes and leaves the range at \<open>[0, 2]\<close>, not \<open>[0, 1]\<close>.
\<close>

theorem forwardFilter_filteredSteps_counterexample:
  "fst (forwardFilter demo_ext 0 (Some 2) SaveAll False False demo_dlm) = Inr ()
   \<and> filteredSteps (result (snd (forwardFilter demo_ext 0 (Some 2) SaveAll False False demo_dlm)))
       = (0, -1)
   \<and> filteredSteps (result demo_filtered) = (0, 2)
   \<and> fst (forwardFilter demo_ext 0 (Some 1) SaveAll True False demo_filtered) = Inr ()
   \<and> filteredSteps (result (snd (forwardFilter demo_ext 0 (Some 1) SaveAll True False demo_filtered)))
       = (0, 2)"
  by code_simp

section \<open>Errors of the in-sample prediction loop\<close>

lemma predictLoop_error:
  "fst (predictLoop ext date steps acc s) = Inl e \<Longrightarrow> e = IndexError"
proof (induction steps arbitrary: acc s)
  case Nil
  then show ?case by simp
next
  case (Cons i rest)
  obtain obsList varList where acc: "acc = (obsList, varList)" by (cases acc)
  show ?case
    using Cons.prems Cons.IH unfolding acc
    by (auto simp: Let_def dest: setitem_error split: sum.splits)
qed

section \<open>The range check of the in-sample prediction\<close>

text \<open>
  Claim C5, as amended. \<^verbatim>\<open>_predictInSample(date, days)\<close> raises its range error if and
  only if \<^verbatim>\<open>date + days > n - 1\<close>, that is, as soon as \<^verbatim>\<open>date + days\<close> reaches the
  length of the series; for \<^verbatim>\<open>date + days <= n - 1\<close> no range error is raised.
\<close>

theorem predictInSample_range_error:
  "(\<exists>e. fst (predictInSample ext date days s) = Inl e \<and> kind_of e = RangeError)
     = (date + days > dlm_n s - 1)"
proof (cases "date + days > dlm_n s - 1")
  case True
  then show ?thesis by (simp add: predictInSample_def)
next
  case False
  have "kind_of e \<noteq> RangeError" if "fst (predictInSample ext date days s) = Inl e" for e
  proof -
    from that False have "fst (and_then (setModelStatus ext date s)
             (\<lambda>u s1. predictLoop ext date [1 .. days - 1]
                        (replicate (nat days) PyNone, replicate (nat days) PyNone)
                        (map_model (set_pred_step 0) s1))) = Inl e"
      by (simp add: predictInSample_def)
    then show ?thesis
    proof (rule and_then_error)
      assume "fst (setModelStatus ext date s) = Inl e"
      then have "setModelStatus ext date s = (Inl e, snd (setModelStatus ext date s))"
        by (metis prod.collapse)
      from setModelStatus_error [OF this] show ?thesis by auto
    next
      fix a s1
      assume "fst (predictLoop ext date [1 .. days - 1]
                 (replicate (nat days) PyNone, replicate (nat days) PyNone)
                 (map_model (set_pred_step 0) s1)) = Inl e"
      then show ?thesis using predictLoop_error by fastforce
    qed
  qed
  then show ?thesis using False by blast
qed

theorem predictInSample_range_error_witness:
  "(\<exists>e. fst (predictInSample demo_ext 0 3 demo_filtered) = Inl e \<and> kind_of e = RangeError)
     = ((0::int) + 3 > dlm_n demo_filtered - 1)"
  by (rule predictInSample_range_error)

text \<open>
  The claim as stated fails: on a series of length 3, \<^verbatim>\<open>date = 0\<close> and \<^verbatim>\<open>days = 3\<close> give
  \<^verbatim>\<open>date + days = 3\<close>, which does not exceed the length, and the call raises the range
  error.
\<close>

theorem predictInSample_range_counterexample:
  "dlm_n demo_filtered = 3 \<and> (0::int) + 3 \<le> dlm_n demo_filtered
   \<and> fst (predictInSample demo_ext 0 3 demo_filtered) = Inl RangeOutOfSample"
  by code_simp

section \<open>When restoring and predicting succeed\<close>

lemma setitem_in_range:
  "0 \<le> i \<Longrightarrow> i < int (length xs) \<Longrightarrow> setitem xs i v = Inr (xs[nat i := v])"
  by (simp add: setitem_def py_index_def)

lemma run_all_succeeds:
  assumes "list_all (\<lambda>a. \<forall>s. fst (a s) = Inr ()) acts"
  shows "fst (run_all acts s) = Inr ()"
  using assms
proof (induction acts arbitrary: s)
  case Nil
  then show ?case by simp
next
  case (Cons a acts)
  obtain x s1 where a: "a s = (x, s1)" by (cases "a s")
  have "\<forall>s. fst (a s) = Inr ()" using Cons.prems by simp
  then have x: "x = Inr ()" using a by (metis fst_conv)
  have rest: "list_all (\<lambda>a. \<forall>s. fst (a s) = Inr ()) acts" using Cons.prems by simp
  show ?case using a x Cons.IH [OF rest, of s1] by simp
qed

lemma fetch_succeeds: "py_index xs step \<noteq> None \<Longrightarrow> fst (fetch xs step wr m) = Inr ()"
  by (auto simp: fetch_def getitem_def)

lemma reverseCopy_succeeds:
  "has_snapshot r step \<Longrightarrow> fst (reverseCopy r step m) = Inr ()"
  unfolding reverseCopy_def has_snapshot_def
  by (intro run_all_succeeds) (simp add: fetch_succeeds)

lemma setModelStatus_succeeds:
  assumes "fst (filteredSteps (result s)) \<le> date" and "date \<le> snd (filteredSteps (result s))"
    and "has_snapshot (result s) date"
  shows "fst (setModelStatus ext date s) = Inr ()"
proof -
  obtain x s1 where r: "on_model (reverseCopy (result s) date) s = (x, s1)"
    by (cases "on_model (reverseCopy (result s) date) s")
  have "fst (on_model (reverseCopy (result s) date) s) = Inr ()"
    using assms(3) by (simp add: reverseCopy_succeeds)
  then have "x = Inr ()" using r by simp
  then show ?thesis using assms(1,2) r by (simp add: setModelStatus_def)
qed

lemma predictLoop_lengths:
  assumes "\<forall>i \<in> set steps. 1 \<le> i \<and> i \<le> int (length obsList)"
    and "length varList = length obsList"
  shows "\<exists>obsList' varList' s'.
           predictLoop ext date steps (obsList, varList) s = (Inr (obsList', varList'), s')
           \<and> length obsList' = length obsList \<and> length varList' = length obsList"
  using assms
proof (induction steps arbitrary: obsList varList s)
  case Nil
  then show ?case by simp
next
  case (Cons i rest)
  let ?s1 = "map_model (Filter_predict ext) (refreshEvaluation ext (date + i) s)"
  let ?o = "obsList[nat (i - 1) := pred_obs (prediction (model (builder ?s1)))]"
  let ?v = "varList[nat (i - 1) := pred_obsVar (prediction (model (builder ?s1)))]"
  have i: "0 \<le> i - 1" "i - 1 < int (length obsList)" "i - 1 < int (length varList)"
    using Cons.prems by auto
  have so: "setitem obsList (i - 1) (pred_obs (prediction (model (builder ?s1)))) = Inr ?o"
    using i by (simp add: setitem_in_range)
  have sv: "setitem varList (i - 1) (pred_obsVar (prediction (model (builder ?s1)))) = Inr ?v"
    using i by (simp add: setitem_in_range)
  have step: "predictLoop ext date (i # rest) (obsList, varList) s
                = predictLoop ext date rest (?o, ?v) ?s1"
    by (simp add: Let_def so sv)
  have "\<forall>i \<in> set rest. 1 \<le> i \<and> i \<le> int (length ?o)" using Cons.prems by simp
  moreover have "length ?v = length ?o" using Cons.prems by simp
  ultimately obtain obsList' varList' s' where
    "predictLoop ext date rest (?o, ?v) ?s1 = (Inr (obsList', varList'), s')"
    "length obsList' = length ?o" "length varList' = length ?o"
    using Cons.IH [of ?o ?v ?s1] by blast
  then show ?case using step by simp
qed

section \<open>Facts about the lag features\<close>

lemma autoRegFeatures_error:
  "autoRegFeatures comps forecasts featureDict = Inl e \<Longrightarrow> e = AttributeError"
  by (induction comps forecasts featureDict rule: autoRegFeatures.induct)
     (auto split: if_splits)

lemma autoRegFeatures_short:
  assumes "(name, c) \<in> set comps" and "componentType c = ''autoReg''"
    and "int (length forecasts) < comp_d c"
  shows "autoRegFeatures comps forecasts featureDict = Inl AttributeError"
  using assms
proof (induction comps forecasts featureDict rule: autoRegFeatures.induct)
  case (1 forecasts featureDict)
  then show ?case by simp
next
  case (2 name' c' rest forecasts featureDict)
  show ?case
  proof (cases "componentType c' = ''autoReg'' \<and> int (length forecasts) < comp_d c'")
    case True
    then show ?thesis by simp
  next
    case False
    then have "(name, c) \<in> set rest" using "2.prems" by auto
    then show ?thesis using False "2.IH" "2.prems"(2,3) by auto
  qed
qed

section \<open>The lag feature of the incremental forecast\<close>

text \<open>
  Claim C2 does not hold of the code. With an active forecast cursor and an automatic
  component of type \<^verbatim>\<open>'autoReg'\<close> whose lag order exceeds the length of the forecast
  sequence, \<^verbatim>\<open>_continuePredict\<close> does not build the backfilled feature: it raises
  \<^verbatim>\<open>AttributeError\<close> (line 397 reads \<^verbatim>\<open>self.predictStatus\<close>, where the lines around it
  read \<^verbatim>\<open>self.result.predictStatus\<close>) and leaves the engine as it was.
\<close>

theorem continuePredict_short_history_raises:
  assumes "predictStatus (result s) = Some (baseDate, currentDate, forecasts)"
    and "(name, c) \<in> set (automaticComponents (builder s))"
    and "componentType c = ''autoReg''" and "int (length forecasts) < comp_d c"
  shows "continuePredict ext featureDict s = (Inl AttributeError, s)"
  using assms(1) autoRegFeatures_short [OF assms(2,3,4), of featureDict]
  by (simp add: continuePredict_def)

theorem continuePredict_short_history_raises_witness:
  "continuePredict demo_ext None demo_components = (Inl AttributeError, demo_components)"
proof -
  have "predictStatus (result demo_components) = Some (2, 3, [PyVal 5])"
    by code_simp
  moreover have "(''ar'', \<lparr>componentType = ''autoReg'', comp_d = 2\<rparr>)
                   \<in> set (automaticComponents (builder demo_components))"
    by (simp add: demo_components_def demo_dlm_def demo_builder_def)
  moreover have "componentType \<lparr>componentType = ''autoReg'', comp_d = 2\<rparr> = ''autoReg''"
    by simp
  moreover have "int (length [PyVal 5 :: int pyval]) < comp_d \<lparr>componentType = ''autoReg'', comp_d = 2\<rparr>"
    by simp
  ultimately show ?thesis by (rule continuePredict_short_history_raises)
qed

section \<open>What the forecasting operations do to the ledger\<close>

lemma assignComponent_result: "result (snd (assignComponent i feature s)) = result s"
  by (simp add: assignComponent_def split: option.splits sum.splits prod.splits)

lemma writeComponent_result: "result (snd (writeComponent ext featureDict date i s)) = result s"
  by (simp add: writeComponent_def assignComponent_result split: option.splits)

lemma writeComponents_result:
  "result (snd (run_all (map (writeComponent ext featureDict date) names) s)) = result s"
  by (rule run_all_keeps [where g = result]) (simp add: list_all_iff writeComponent_result)

lemma constructEvaluationForPrediction_result:
  "result (snd (constructEvaluationForPrediction ext featureDict date s)) = result s"
proof (cases featureDict)
  case None
  then show ?thesis
    by (simp add: constructEvaluationForPrediction_def split: option.splits)
next
  case (Some fd)
  have "result (snd (and_then
            (run_all (map (writeComponent ext fd date) (map fst (dynamicComponents (builder s)))) s)
            (\<lambda>u. run_all (map (writeComponent ext fd date)
                            (map fst (automaticComponents (builder s))))))) = result s"
    by (rule and_then_keeps [where g = result]) (simp_all only: writeComponents_result)
  then show ?thesis
    unfolding constructEvaluationForPrediction_def Some by simp
qed

lemma oneDayAheadPredict_status:
  assumes "oneDayAheadPredict ext date featureDict s = (Inr (obsNow, varNow), s0)"
  shows "predictStatus (result s0) = Some (date, date + 1, [obsNow])"
proof -
  have nb: "\<not> date > dlm_n s - 1"
    using assms by (auto simp: oneDayAheadPredict_def)
  then have "and_then (setModelStatus ext date s)
             (\<lambda>u s1. and_then (constructEvaluationForPrediction ext featureDict (Some (date + 1)) s1)
                (\<lambda>u s2.
                   let s3 = map_model (Filter_predict ext) (map_model (set_pred_step 0) s2);
                       obsNow = pred_obs (prediction (model (builder s3)));
                       varNow = pred_obsVar (prediction (model (builder s3)))
                   in (Inr (obsNow, varNow),
                       s3\<lparr>result := (result s3)\<lparr>predictStatus :=
                             Some (date, date + 1, [obsNow])\<rparr>\<rparr>)))
          = (Inr (obsNow, varNow), s0)"
    using assms by (simp add: oneDayAheadPredict_def)
  then show ?thesis
  proof (cases rule: and_thenE)
    case (raised e)
    then show ?thesis by simp
  next
    case (went_on a s1)
    from went_on(2) show ?thesis
    proof (cases rule: and_thenE)
      case (raised e)
      then show ?thesis by simp
    next
      case (went_on b s2)
      then show ?thesis by (auto simp: Let_def)
    qed
  qed
qed

lemma continuePredict_status:
  assumes "predictStatus (result s) = Some (baseDate, currentDate, forecasts)"
    and "continuePredict ext featureDict s = (Inr (obsNow, varNow), s')"
  shows "predictStatus (result s') = Some (baseDate, currentDate + 1, forecasts @ [obsNow])"
proof (cases "autoRegFeatures (automaticComponents (builder s)) forecasts featureDict")
  case (Inl e)
  then show ?thesis using assms by (simp add: continuePredict_def)
next
  case (Inr featureDict')
  then have "and_then (constructEvaluationForPrediction ext featureDict' (Some (currentDate + 1)) s)
                 (\<lambda>u s1.
                    let s2 = map_model (Filter_predict ext) s1;
                        obsNow = pred_obs (prediction (model (builder s2)));
                        varNow = pred_obsVar (prediction (model (builder s2)))
                    in and_then (advanceStatus obsNow s2)
                         (\<lambda>u s3. (Inr (obsNow, varNow), s3)))
               = (Inr (obsNow, varNow), s')"
    using assms by (simp add: continuePredict_def)
  then show ?thesis
  proof (cases rule: and_thenE)
    case (raised e)
    then show ?thesis by simp
  next
    case (went_on a s1)
    have "result s1 = result s"
      using constructEvaluationForPrediction_result
              [of ext featureDict' "Some (currentDate + 1)" s] went_on(1)
      by simp
    then have "predictStatus (result (map_model (Filter_predict ext) s1))
                 = Some (baseDate, currentDate, forecasts)"
      using assms(1) by simp
    then show ?thesis using went_on(2)
      by (auto simp: Let_def advanceStatus_def)
  qed
qed

lemma continuePredicts_status:
  assumes "predictStatus (result s) = Some (baseDate, currentDate, forecasts)"
    and "continuePredicts ext featureDicts s = (Inr (), s')"
  shows "\<exists>more. predictStatus (result s')
                  = Some (baseDate, currentDate + int (length featureDicts), forecasts @ more)
               \<and> length more = length featureDicts"
  using assms
proof (induction featureDicts arbitrary: s currentDate forecasts)
  case Nil
  then show ?case by simp
next
  case (Cons fd fds)
  obtain x s1 where c: "continuePredict ext fd s = (x, s1)"
    by (cases "continuePredict ext fd s")
  show ?case
  proof (cases x)
    case (Inl e)
    then show ?thesis using Cons.prems(2) c by simp
  next
    case (Inr r)
    obtain obsNow varNow where r: "r = (obsNow, varNow)" by (cases r)
    have st: "predictStatus (result s1) = Some (baseDate, currentDate + 1, forecasts @ [obsNow])"
      using continuePredict_status [OF Cons.prems(1)] c Inr r by simp
    have "continuePredicts ext fds s1 = (Inr (), s')"
      using Cons.prems(2) c Inr by simp
    from Cons.IH [OF st this] obtain more where
      "predictStatus (result s')
         = Some (baseDate, currentDate + 1 + int (length fds), (forecasts @ [obsNow]) @ more)"
      "length more = length fds"
      by blast
    then have "predictStatus (result s')
                 = Some (baseDate, currentDate + int (length (fd # fds)), forecasts @ (obsNow # more))
               \<and> length (obsNow # more) = length (fd # fds)"
      by simp
    then show ?thesis by blast
  qed
qed

section \<open>The forecast cursor\<close>

text \<open>
  Claim C6. After \<^verbatim>\<open>_oneDayAheadPredict(date)\<close> has returned and \<open>m\<close> calls of
  \<^verbatim>\<open>_continuePredict\<close> have returned (with any feature dictionaries), the cursor is
  \<^verbatim>\<open>[date, date + 1 + m, forecasts]\<close> with \<open>m + 1\<close> forecasts; one more call that returns
  moves the current date on by exactly one and appends exactly the forecast it returns.
\<close>

theorem forecast_cursor_advances:
  assumes "oneDayAheadPredict ext date featureDict s = (Inr first, s0)"
    and "continuePredicts ext featureDicts s0 = (Inr (), s1)"
    and "continuePredict ext featureDict' s1 = (Inr (obsNow, varNow), s2)"
  shows "\<exists>forecasts.
           predictStatus (result s1) = Some (date, date + 1 + int (length featureDicts), forecasts)
           \<and> length forecasts = length featureDicts + 1
           \<and> predictStatus (result s2)
               = Some (date, date + 1 + int (length featureDicts) + 1, forecasts @ [obsNow])"
proof -
  obtain o1 v1 where "first = (o1, v1)" by (cases first)
  then have "predictStatus (result s0) = Some (date, date + 1, [o1])"
    using oneDayAheadPredict_status assms(1) by blast
  from continuePredicts_status [OF this assms(2)] obtain more where
    m: "predictStatus (result s1)
          = Some (date, date + 1 + int (length featureDicts), [o1] @ more)"
       "length more = length featureDicts"
    by blast
  from continuePredict_status [OF m(1) assms(3)] m show ?thesis by simp
qed

lemma demo_one: "fst (oneDayAheadPredict demo_ext 2 None demo_filtered) = Inr (PyVal 3, PyVal 1)"
  by code_simp

lemma demo_many:
  "fst (continuePredicts demo_ext [None, None]
          (snd (oneDayAheadPredict demo_ext 2 None demo_filtered))) = Inr ()"
  by code_simp

lemma demo_next:
  "fst (continuePredict demo_ext None
          (snd (continuePredicts demo_ext [None, None]
             (snd (oneDayAheadPredict demo_ext 2 None demo_filtered))))) = Inr (PyVal 3, PyVal 1)"
  by code_simp

theorem forecast_cursor_advances_witness:
  "\<exists>forecasts.
     predictStatus (result (snd (continuePredicts demo_ext [None, None]
        (snd (oneDayAheadPredict demo_ext 2 None demo_filtered)))))
       = Some (2, 2 + 1 + int (length [None :: (string \<rightharpoonup> int pyval list) option, None]), forecasts)
     \<and> length forecasts = length [None :: (string \<rightharpoonup> int pyval list) option, None] + 1
     \<and> predictStatus (result (snd (continuePredict demo_ext None
          (snd (continuePredicts demo_ext [None, None]
             (snd (oneDayAheadPredict demo_ext 2 None demo_filtered)))))))
         = Some (2, 2 + 1 + int (length [None :: (string \<rightharpoonup> int pyval list) option, None]) + 1,
                 forecasts @ [PyVal 3])"
proof -
  let ?s0 = "snd (oneDayAheadPredict demo_ext 2 None demo_filtered)"
  let ?s1 = "snd (continuePredicts demo_ext [None, None] ?s0)"
  let ?s2 = "snd (continuePredict demo_ext None ?s1)"
  have a: "oneDayAheadPredict demo_ext 2 None demo_filtered = (Inr (PyVal 3, PyVal 1), ?s0)"
    using demo_one by (metis prod.collapse)
  have b: "continuePredicts demo_ext [None, None] ?s0 = (Inr (), ?s1)"
    using demo_many by (metis prod.collapse)
  have c: "continuePredict demo_ext None ?s1 = (Inr (PyVal 3, PyVal 1), ?s2)"
    using demo_next by (metis prod.collapse)
  show ?thesis by (rule forecast_cursor_advances [OF a b c])
qed

section \<open>Facts about snapshots\<close>

lemma fetch_value:
  "py_index xs step = Some k \<Longrightarrow> fetch xs step wr m = (Inr (), wr (xs ! k) m)"
  by (simp add: fetch_def getitem_def)

lemma getitem_value: "py_index xs step = Some k \<Longrightarrow> getitem xs step = Inr (xs ! k)"
  by (simp add: getitem_def)

lemma reverseCopy_value:
  assumes "has_snapshot r step"
  shows "\<exists>m'. reverseCopy r step m = (Inr (), m')
           \<and> getitem (filteredObs r) step = Inr (obs m')
           \<and> getitem (predictedObs r) step = Inr (pred_obs (prediction m'))
           \<and> getitem (filteredObsVar r) step = Inr (obsVar m')
           \<and> getitem (predictedObsVar r) step = Inr (pred_obsVar (prediction m'))
           \<and> getitem (filteredState r) step = Inr (state m')
           \<and> getitem (predictedState r) step = Inr (pred_state (prediction m'))
           \<and> getitem (filteredCov r) step = Inr (sysVar m')
           \<and> getitem (predictedCov r) step = Inr (pred_sysVar (prediction m'))
           \<and> getitem (result_noiseVar r) step = Inr (noiseVar m')
           \<and> getitem (result_df r) step = Inr (df m')
           \<and> evaluation m' = evaluation m"
proof -
  from assms obtain k1 k2 k3 k4 k5 k6 k7 k8 k9 k10 where k:
    "py_index (filteredObs r) step = Some k1" "py_index (predictedObs r) step = Some k2"
    "py_index (filteredObsVar r) step = Some k3" "py_index (predictedObsVar r) step = Some k4"
    "py_index (filteredState r) step = Some k5" "py_index (predictedState r) step = Some k6"
    "py_index (filteredCov r) step = Some k7" "py_index (predictedCov r) step = Some k8"
    "py_index (result_noiseVar r) step = Some k9" "py_index (result_df r) step = Some k10"
    unfolding has_snapshot_def by auto
  show ?thesis
    by (simp add: reverseCopy_def k [THEN fetch_value] k [THEN getitem_value]
          set_pred_obs_def set_pred_obsVar_def set_pred_state_def set_pred_sysVar_def)
qed

lemma put_same:
  assumes "getitem (sel r) step = Inr v" and "upd (\<lambda>_. sel r) r = r"
  shows "put sel upd step v r = (Inr (), r)"
proof -
  from assms(1) obtain k where k: "py_index (sel r) step = Some k" "sel r ! k = v"
    by (auto simp: getitem_def split: option.splits)
  then have "setitem (sel r) step v = Inr (sel r)"
    by (auto simp: setitem_def)
  then show ?thesis using assms(2) by (simp add: put_def)
qed

lemma copy_same:
  assumes "getitem (filteredObs r) step = Inr (obs m)"
    and "getitem (predictedObs r) step = Inr (pred_obs (prediction m))"
    and "getitem (filteredObsVar r) step = Inr (obsVar m)"
    and "getitem (predictedObsVar r) step = Inr (pred_obsVar (prediction m))"
    and "getitem (filteredState r) step = Inr (state m)"
    and "getitem (predictedState r) step = Inr (pred_state (prediction m))"
    and "getitem (filteredCov r) step = Inr (sysVar m)"
    and "getitem (predictedCov r) step = Inr (pred_sysVar (prediction m))"
    and "getitem (result_noiseVar r) step = Inr (noiseVar m)"
    and "getitem (result_df r) step = Inr (df m)"
  shows "copy m step ''forwardFilter'' r = (Inr (), r)"
proof -
  have p1: "put filteredObs filteredObs_update step v r = (Inr (), r)" if "getitem (filteredObs r) step = Inr v" for v
    using that by (rule put_same) simp
  have p2: "put predictedObs predictedObs_update step v r = (Inr (), r)" if "getitem (predictedObs r) step = Inr v" for v
    using that by (rule put_same) simp
  have p3: "put filteredObsVar filteredObsVar_update step v r = (Inr (), r)" if "getitem (filteredObsVar r) step = Inr v" for v
    using that by (rule put_same) simp
  have p4: "put predictedObsVar predictedObsVar_update step v r = (Inr (), r)" if "getitem (predictedObsVar r) step = Inr v" for v
    using that by (rule put_same) simp
  have p5: "put filteredState filteredState_update step v r = (Inr (), r)" if "getitem (filteredState r) step = Inr v" for v
    using that by (rule put_same) simp
  have p6: "put predictedState predictedState_update step v r = (Inr (), r)" if "getitem (predictedState r) step = Inr v" for v
    using that by (rule put_same) simp
  have p7: "put filteredCov filteredCov_update step v r = (Inr (), r)" if "getitem (filteredCov r) step = Inr v" for v
    using that by (rule put_same) simp
  have p8: "put predictedCov predictedCov_update step v r = (Inr (), r)" if "getitem (predictedCov r) step = Inr v" for v
    using that by (rule put_same) simp
  have p9: "put result_noiseVar result_noiseVar_update step v r = (Inr (), r)" if "getitem (result_noiseVar r) step = Inr v" for v
    using that by (rule put_same) simp
  have p10: "put result_df result_df_update step v r = (Inr (), r)" if "getitem (result_df r) step = Inr v" for v
    using that by (rule put_same) simp
  show ?thesis
    by (simp add: copy_def p1 p2 p3 p4 p5 p6 p7 p8 p9 p10 assms)
qed

section \<open>Restoring a snapshot and saving it again\<close>

text \<open>
  Claim C9. For a date inside the filtered range at which the ledger holds a snapshot,
  \<^verbatim>\<open>_setModelStatus(d)\<close> succeeds, and \<^verbatim>\<open>_copy\<close> with filter type \<^verbatim>\<open>'forwardFilter'\<close> at
  step \<open>d\<close> right after it succeeds and leaves the ledger exactly as it was: every tracked
  field gets back the value it already held at index \<open>d\<close>.
\<close>

theorem restore_then_save_is_identity:
  assumes "fst (filteredSteps (result s)) \<le> d" and "d \<le> snd (filteredSteps (result s))"
    and "has_snapshot (result s) d"
  shows "\<exists>s1. setModelStatus ext d s = (Inr (), s1)
           \<and> copy (model (builder s1)) d ''forwardFilter'' (result s1) = (Inr (), result s)"
proof -
  obtain m' where m': "reverseCopy (result s) d (model (builder s)) = (Inr (), m')"
    and v: "getitem (filteredObs (result s)) d = Inr (obs m')"
      "getitem (predictedObs (result s)) d = Inr (pred_obs (prediction m'))"
      "getitem (filteredObsVar (result s)) d = Inr (obsVar m')"
      "getitem (predictedObsVar (result s)) d = Inr (pred_obsVar (prediction m'))"
      "getitem (filteredState (result s)) d = Inr (state m')"
      "getitem (predictedState (result s)) d = Inr (pred_state (prediction m'))"
      "getitem (filteredCov (result s)) d = Inr (sysVar m')"
      "getitem (predictedCov (result s)) d = Inr (pred_sysVar (prediction m'))"
      "getitem (result_noiseVar (result s)) d = Inr (noiseVar m')"
      "getitem (result_df (result s)) d = Inr (df m')"
    using reverseCopy_value [OF assms(3), of "model (builder s)"] by blast
  let ?s' = "s\<lparr>builder := (builder s)\<lparr>model := m'\<rparr>\<rparr>"
  let ?s1 = "refreshEvaluation ext d ?s'"
  have set: "setModelStatus ext d s = (Inr (), ?s1)"
    using assms(1,2) m' by (simp add: setModelStatus_def on_model_def)
  have r1: "result ?s1 = result s" by simp
  have same: "obs (model (builder ?s1)) = obs m'" "obsVar (model (builder ?s1)) = obsVar m'"
    "state (model (builder ?s1)) = state m'" "sysVar (model (builder ?s1)) = sysVar m'"
    "noiseVar (model (builder ?s1)) = noiseVar m'" "df (model (builder ?s1)) = df m'"
    "prediction (model (builder ?s1)) = prediction m'"
    by (simp_all add: refreshEvaluation_def map_model_def)
  have "copy (model (builder ?s1)) d ''forwardFilter'' (result s) = (Inr (), result s)"
    by (rule copy_same) (simp_all add: same v)
  then show ?thesis using set r1 by simp
qed

theorem restore_then_save_is_identity_witness:
  "\<exists>s1. setModelStatus demo_ext 1 demo_filtered = (Inr (), s1)
     \<and> copy (model (builder s1)) 1 ''forwardFilter'' (result s1) = (Inr (), result demo_filtered)"
proof -
  have "fst (filteredSteps (result demo_filtered)) \<le> 1" by code_simp
  moreover have "1 \<le> snd (filteredSteps (result demo_filtered))" by code_simp
  moreover have "has_snapshot (result demo_filtered) 1" by code_simp
  ultimately show ?thesis by (rule restore_then_save_is_identity)
qed

section \<open>What the smoothing loop leaves in place\<close>

lemma setitem_getitem: "setitem xs i v = Inr ys \<Longrightarrow> getitem ys i = Inr v"
  by (auto simp: setitem_def getitem_def py_index_def split: if_splits)

lemma setitem_other:
  assumes "setitem xs day v = Inr ys" and "0 \<le> day" and "day < i"
  shows "getitem ys i = getitem xs i"
proof -
  from assms(1,2) have ys: "ys = xs[nat day := v]"
    by (auto simp: setitem_def py_index_def split: if_splits)
  have "nat day \<noteq> nat i" using assms(2,3) by simp
  then show ?thesis using assms(2,3)
    by (simp add: ys getitem_def py_index_def)
qed

lemma put_other:
  assumes "0 \<le> day" and "day < i" and "\<And>f r. sel (upd f r) = f (sel r)"
  shows "getitem (sel (snd (put sel upd day v r))) i = getitem (sel r) i"
proof (cases "setitem (sel r) day v")
  case (Inl e)
  then show ?thesis by (simp add: put_def)
next
  case (Inr ys)
  then show ?thesis using setitem_other [OF Inr assms(1,2)] assms(3) by (simp add: put_def)
qed

lemma load_result [simp]: "result (snd (load sel step wr s)) = result s"
  by (simp add: load_def)

lemma smoothCall_result [simp]: "result (snd (smoothCall ext day s)) = result s"
  by (simp add: smoothCall_def split: sum.splits)

lemma run_all_ConsE:
  assumes "run_all (a # acts) s = (Inr u, s')"
  obtains s1 where "a s = (Inr (), s1)" and "run_all acts s1 = (Inr u, s')"
proof (cases "a s")
  case (Pair x s1)
  then show ?thesis using assms that by (cases x) auto
qed

lemma move_value:
  assumes "move src sel upd step s = (Inr (), s')"
  obtains v ys where "getitem (src (result s)) step = Inr v"
    and "setitem (sel (result s)) step v = Inr ys"
    and "s' = s\<lparr>result := upd (\<lambda>_. ys) (result s)\<rparr>"
  using assms
  by (auto simp: move_def put_def on_result_def split: sum.splits)

lemma put_boundary:
  assumes "0 \<le> day" and "day < i"
  shows "boundary i (snd (put smoothedState smoothedState_update day v r)) = boundary i r"
    and "boundary i (snd (put smoothedObs smoothedObs_update day v r)) = boundary i r"
    and "boundary i (snd (put smoothedCov smoothedCov_update day v r)) = boundary i r"
    and "boundary i (snd (put smoothedObsVar smoothedObsVar_update day v r)) = boundary i r"
proof -
  show "boundary i (snd (put smoothedState smoothedState_update day v r)) = boundary i r"
    by (cases "setitem (smoothedState r) day v")
       (simp_all add: put_def boundary_def setitem_other [OF _ assms])
  show "boundary i (snd (put smoothedObs smoothedObs_update day v r)) = boundary i r"
    by (cases "setitem (smoothedObs r) day v")
       (simp_all add: put_def boundary_def setitem_other [OF _ assms])
  show "boundary i (snd (put smoothedCov smoothedCov_update day v r)) = boundary i r"
    by (cases "setitem (smoothedCov r) day v")
       (simp_all add: put_def boundary_def setitem_other [OF _ assms])
  show "boundary i (snd (put smoothedObsVar smoothedObsVar_update day v r)) = boundary i r"
    by (cases "setitem (smoothedObsVar r) day v")
       (simp_all add: put_def boundary_def setitem_other [OF _ assms])
qed

lemma copy_smoother_boundary:
  assumes "0 \<le> day" and "day < i"
  shows "boundary i (snd (copy m day ''backwardSmoother'' r)) = boundary i r"
  unfolding copy_def
  by (simp add: run_all_keeps [where g = "boundary i"] put_boundary [OF assms]
        del: run_all.simps)

lemma smoothStep_boundary:
  assumes "0 \<le> day" and "day < i"
  shows "boundary i (result (snd (smoothStep ext day s))) = boundary i (result s)"
  unfolding smoothStep_def
  by (rule run_all_keeps [where g = "\<lambda>s. boundary i (result s)"])
     (simp add: copy_smoother_boundary [OF assms])

lemma smoothLoop_boundary:
  assumes "\<forall>day \<in> set ds. 0 \<le> day \<and> day < i"
  shows "boundary i (result (snd (run_all (map (smoothStep ext) ds) s))) = boundary i (result s)"
  by (rule run_all_keeps [where g = "\<lambda>s. boundary i (result s)"])
     (use assms in \<open>simp add: list_all_iff smoothStep_boundary\<close>)

lemma smoothInit_boundary:
  assumes "smoothInit start ignoreFuture s = (Inr start1, s1)"
    and "start = dlm_n s - 1 \<or> ignoreFuture"
  shows "\<exists>st ob cv ov.
           boundary start (result s1)
             = (Inr st, Inr ob, Inr cv, Inr ov,
                filteredState (result s), filteredObs (result s),
                filteredCov (result s), filteredObsVar (result s))
           \<and> getitem (filteredState (result s)) start = Inr st
           \<and> getitem (filteredObs (result s)) start = Inr ob
           \<and> getitem (filteredCov (result s)) start = Inr cv
           \<and> getitem (filteredObsVar (result s)) start = Inr ov
           \<and> start1 = start - 1"
proof -
  from assms have "and_then
          (run_all
             [move filteredState smoothedState smoothedState_update start,
              move filteredObs smoothedObs smoothedObs_update start,
              move filteredCov smoothedCov smoothedCov_update start,
              move filteredObsVar smoothedObsVar smoothedObsVar_update start,
              load result_noiseVar start (\<lambda>v m. m\<lparr>noiseVar := v\<rparr>)] s)
          (\<lambda>u s'. (Inr (start - 1), s')) = (Inr start1, s1)"
    by (simp add: smoothInit_def)
  then show ?thesis
  proof (cases rule: and_thenE)
    case (raised e)
    then show ?thesis by simp
  next
    case (went_on u s5)
    then have s5: "s5 = s1" and st: "start1 = start - 1" by simp_all
    from went_on(1) obtain sa where
      a: "move filteredState smoothedState smoothedState_update start s = (Inr (), sa)"
      and ra: "run_all
             [move filteredObs smoothedObs smoothedObs_update start,
              move filteredCov smoothedCov smoothedCov_update start,
              move filteredObsVar smoothedObsVar smoothedObsVar_update start,
              load result_noiseVar start (\<lambda>v m. m\<lparr>noiseVar := v\<rparr>)] sa = (Inr u, s5)"
      by (rule run_all_ConsE)
    from ra obtain sb where
      b: "move filteredObs smoothedObs smoothedObs_update start sa = (Inr (), sb)"
      and rb: "run_all
             [move filteredCov smoothedCov smoothedCov_update start,
              move filteredObsVar smoothedObsVar smoothedObsVar_update start,
              load result_noiseVar start (\<lambda>v m. m\<lparr>noiseVar := v\<rparr>)] sb = (Inr u, s5)"
      by (rule run_all_ConsE)
    from rb obtain sc where
      c: "move filteredCov smoothedCov smoothedCov_update start sb = (Inr (), sc)"
      and rc: "run_all
             [move filteredObsVar smoothedObsVar smoothedObsVar_update start,
              load result_noiseVar start (\<lambda>v m. m\<lparr>noiseVar := v\<rparr>)] sc = (Inr u, s5)"
      by (rule run_all_ConsE)
    from rc obtain sd where
      d: "move filteredObsVar smoothedObsVar smoothedObsVar_update start sc = (Inr (), sd)"
      and rd: "run_all [load result_noiseVar start (\<lambda>v m. m\<lparr>noiseVar := v\<rparr>)] sd = (Inr u, s5)"
      by (rule run_all_ConsE)
    from rd obtain se where
      e: "load result_noiseVar start (\<lambda>v m. m\<lparr>noiseVar := v\<rparr>) sd = (Inr (), se)"
      and re: "run_all [] se = (Inr u, s5)"
      by (rule run_all_ConsE)
    have r5: "result s1 = result sd"
      using e re s5 load_result [of result_noiseVar start "\<lambda>v m. m\<lparr>noiseVar := v\<rparr>" sd]
      by simp
    from a obtain v1 y1 where a':
      "getitem (filteredState (result s)) start = Inr v1"
      "setitem (smoothedState (result s)) start v1 = Inr y1"
      "sa = s\<lparr>result := smoothedState_update (\<lambda>_. y1) (result s)\<rparr>"
      by (rule move_value)
    from b obtain v2 y2 where b':
      "getitem (filteredObs (result sa)) start = Inr v2"
      "setitem (smoothedObs (result sa)) start v2 = Inr y2"
      "sb = sa\<lparr>result := smoothedObs_update (\<lambda>_. y2) (result sa)\<rparr>"
      by (rule move_value)
    from c obtain v3 y3 where c':
      "getitem (filteredCov (result sb)) start = Inr v3"
      "setitem (smoothedCov (result sb)) start v3 = Inr y3"
      "sc = sb\<lparr>result := smoothedCov_update (\<lambda>_. y3) (result sb)\<rparr>"
      by (rule move_value)
    from d obtain v4 y4 where d':
      "getitem (filteredObsVar (result sc)) start = Inr v4"
      "setitem (smoothedObsVar (result sc)) start v4 = Inr y4"
      "sd = sc\<lparr>result := smoothedObsVar_update (\<lambda>_. y4) (result sc)\<rparr>"
      by (rule move_value)
    have g: "getitem y1 start = Inr v1" "getitem y2 start = Inr v2"
      "getitem y3 start = Inr v3" "getitem y4 start = Inr v4"
      using a'(2) b'(2) c'(2) d'(2) by (auto dest: setitem_getitem)
    have "boundary start (result s1)
            = (Inr v1, Inr v2, Inr v3, Inr v4,
               filteredState (result s), filteredObs (result s),
               filteredCov (result s), filteredObsVar (result s))"
      using g by (simp add: r5 boundary_def a'(3) b'(3) c'(3) d'(3))
    moreover have "getitem (filteredObs (result s)) start = Inr v2"
      using b'(1) by (simp add: a'(3))
    moreover have "getitem (filteredCov (result s)) start = Inr v3"
      using c'(1) by (simp add: a'(3) b'(3))
    moreover have "getitem (filteredObsVar (result s)) start = Inr v4"
      using d'(1) by (simp add: a'(3) b'(3) c'(3))
    ultimately show ?thesis using a'(1) st by blast
  qed
qed

lemma smoothRest_boundary:
  assumes "0 \<le> end"
  shows "boundary start (result (snd
           (if start - 1 < end then (Inr (), s1)
            else and_then
                   (run_all
                      [load smoothedState (start - 1 + 1) (\<lambda>v m. m\<lparr>state := v\<rparr>),
                       load smoothedCov (start - 1 + 1) (\<lambda>v m. m\<lparr>sysVar := v\<rparr>)] s1)
                   (\<lambda>u. run_all (map (smoothStep ext) (rev [end .. start - 1]))))))
         = boundary start (result s1)"
proof (cases "start - 1 < end")
  case True
  then show ?thesis by simp
next
  case False
  have loads: "result (snd (run_all
                      [load smoothedState (start - 1 + 1) (\<lambda>v m. m\<lparr>state := v\<rparr>),
                       load smoothedCov (start - 1 + 1) (\<lambda>v m. m\<lparr>sysVar := v\<rparr>)] s1))
                 = result s1"
    by (rule run_all_keeps [where g = result]) simp
  have days: "\<forall>day \<in> set (rev [end .. start - 1]). 0 \<le> day \<and> day < start"
    using assms by auto
  have "boundary start (result (snd (and_then
                   (run_all
                      [load smoothedState (start - 1 + 1) (\<lambda>v m. m\<lparr>state := v\<rparr>),
                       load smoothedCov (start - 1 + 1) (\<lambda>v m. m\<lparr>sysVar := v\<rparr>)] s1)
                   (\<lambda>u. run_all (map (smoothStep ext) (rev [end .. start - 1]))))))
          = boundary start (result s1)"
  proof (rule and_then_keeps [where g = "\<lambda>s. boundary start (result s)"])
    show "boundary start (result (snd (run_all
                      [load smoothedState (start - 1 + 1) (\<lambda>v m. m\<lparr>state := v\<rparr>),
                       load smoothedCov (start - 1 + 1) (\<lambda>v m. m\<lparr>sysVar := v\<rparr>)] s1)))
            = boundary start (result s1)"
      by (simp only: loads)
  next
    fix a and s2 :: "'a dlm"
    assume "boundary start (result s2) = boundary start (result s1)"
    then show "boundary start (result (snd (run_all (map (smoothStep ext) (rev [end .. start - 1])) s2)))
                 = boundary start (result s1)"
      using smoothLoop_boundary [OF days, of ext s2] by simp
  qed
  then show ?thesis using False by simp
qed

lemma backwardSmoother_boundary:
  assumes "backwardSmoother ext start days ignoreFuture s = (Inr (), s')"
    and "start0 = (case start of None \<Rightarrow> dlm_n s - 1 | Some x \<Rightarrow> x)"
    and "start0 = dlm_n s - 1 \<or> ignoreFuture"
  shows "\<exists>ob ov st cv.
           getitem (smoothedObs (result s')) start0 = Inr ob
           \<and> getitem (filteredObs (result s')) start0 = Inr ob
           \<and> getitem (smoothedObsVar (result s')) start0 = Inr ov
           \<and> getitem (filteredObsVar (result s')) start0 = Inr ov
           \<and> getitem (smoothedState (result s')) start0 = Inr st
           \<and> getitem (filteredState (result s')) start0 = Inr st
           \<and> getitem (smoothedCov (result s')) start0 = Inr cv
           \<and> getitem (filteredCov (result s')) start0 = Inr cv
           \<and> filteredObs (result s') = filteredObs (result s)
           \<and> filteredObsVar (result s') = filteredObsVar (result s)
           \<and> filteredState (result s') = filteredState (result s)
           \<and> filteredCov (result s') = filteredCov (result s)"
proof -
  let ?end = "smootherEnd start0 days"
  let ?rest = "\<lambda>start1 s1.
                   if start1 < ?end then (Inr (), s1)
                   else and_then
                          (run_all
                             [load smoothedState (start1 + 1) (\<lambda>v m. m\<lparr>state := v\<rparr>),
                              load smoothedCov (start1 + 1) (\<lambda>v m. m\<lparr>sysVar := v\<rparr>)] s1)
                          (\<lambda>u. run_all (map (smoothStep ext) (rev [?end .. start1])))"
  have "and_then (smoothInit start0 ignoreFuture s) ?rest = (Inr (), s')"
    using assms(1) unfolding backwardSmoother_def Let_def assms(2) [symmetric]
    by (simp split: if_splits)
  then show ?thesis
  proof (cases rule: and_thenE)
    case (raised e)
    then show ?thesis by simp
  next
    case (went_on start1 s1)
    from smoothInit_boundary [OF went_on(1) assms(3)] obtain st ob cv ov where
      b1: "boundary start0 (result s1)
             = (Inr st, Inr ob, Inr cv, Inr ov,
                filteredState (result s), filteredObs (result s),
                filteredCov (result s), filteredObsVar (result s))"
      and f: "getitem (filteredState (result s)) start0 = Inr st"
        "getitem (filteredObs (result s)) start0 = Inr ob"
        "getitem (filteredCov (result s)) start0 = Inr cv"
        "getitem (filteredObsVar (result s)) start0 = Inr ov"
      and s1: "start1 = start0 - 1"
      by blast
    have "boundary start0 (result (snd (?rest (start0 - 1) s1))) = boundary start0 (result s1)"
      by (rule smoothRest_boundary) (rule smootherEnd_nonneg)
    moreover have "?rest (start0 - 1) s1 = (Inr (), s')"
      using went_on(2) unfolding s1 .
    ultimately have "boundary start0 (result s') = boundary start0 (result s1)"
      by (simp only: snd_conv)
    then have "boundary start0 (result s')
             = (Inr st, Inr ob, Inr cv, Inr ov,
                filteredState (result s), filteredObs (result s),
                filteredCov (result s), filteredObsVar (result s))"
      using b1 by simp
    then show ?thesis using f by (simp add: boundary_def)
  qed
qed

section \<open>A restored model holds the snapshot\<close>

lemma fetch_fails: "py_index xs step = None \<Longrightarrow> fst (fetch xs step wr m) = Inl IndexError"
  by (simp add: fetch_def getitem_def)

lemma run_all_fails:
  assumes "a \<in> set acts" and "\<And>s. \<exists>e. fst (a s) = Inl e"
  shows "\<exists>e. fst (run_all acts s) = Inl e"
  using assms(1)
proof (induction acts arbitrary: s)
  case Nil
  then show ?case by simp
next
  case (Cons b acts)
  obtain x s1 where b: "b s = (x, s1)" by (cases "b s")
  show ?case
  proof (cases x)
    case (Inl e)
    then show ?thesis using b by simp
  next
    case (Inr u)
    then have "b \<noteq> a" using assms(2) [of s] b by auto
    then have "a \<in> set acts" using Cons.prems by simp
    then show ?thesis using Cons.IH [of s1] b Inr by simp
  qed
qed

lemma reverseCopy_needs_snapshot:
  assumes "fst (reverseCopy r step m) = Inr ()"
  shows "has_snapshot r step"
proof (rule ccontr)
  assume "\<not> has_snapshot r step"
  then consider (1) "py_index (filteredObs r) step = None" | (2) "py_index (predictedObs r) step = None" | (3) "py_index (filteredObsVar r) step = None" | (4) "py_index (predictedObsVar r) step = None" | (5) "py_index (filteredState r) step = None" | (6) "py_index (predictedState r) step = None" | (7) "py_index (filteredCov r) step = None" | (8) "py_index (predictedCov r) step = None" | (9) "py_index (result_noiseVar r) step = None" | (10) "py_index (result_df r) step = None"
    unfolding has_snapshot_def by blast
  then have "\<exists>e. fst (reverseCopy r step m) = Inl e"
  proof cases
    case 1
    show ?thesis
      unfolding reverseCopy_def
      by (rule run_all_fails [where a = "fetch (filteredObs r) step (\<lambda>v m. m\<lparr>obs := v\<rparr>)"])
         (simp_all add: fetch_fails 1)
  next
    case 2
    show ?thesis
      unfolding reverseCopy_def
      by (rule run_all_fails [where a = "fetch (predictedObs r) step set_pred_obs"])
         (simp_all add: fetch_fails 2)
  next
    case 3
    show ?thesis
      unfolding reverseCopy_def
      by (rule run_all_fails [where a = "fetch (filteredObsVar r) step (\<lambda>v m. m\<lparr>obsVar := v\<rparr>)"])
         (simp_all add: fetch_fails 3)
  next
    case 4
    show ?thesis
      unfolding reverseCopy_def
      by (rule run_all_fails [where a = "fetch (predictedObsVar r) step set_pred_obsVar"])
         (simp_all add: fetch_fails 4)
  next
    case 5
    show ?thesis
      unfolding reverseCopy_def
      by (rule run_all_fails [where a = "fetch (filteredState r) step (\<lambda>v m. m\<lparr>state := v\<rparr>)"])
         (simp_all add: fetch_fails 5)
  next
    case 6
    show ?thesis
      unfolding reverseCopy_def
      by (rule run_all_fails [where a = "fetch (predictedState r) step set_pred_state"])
         (simp_all add: fetch_fails 6)
  next
    case 7
    show ?thesis
      unfolding reverseCopy_def
      by (rule run_all_fails [where a = "fetch (filteredCov r) step (\<lambda>v m. m\<lparr>sysVar := v\<rparr>)"])
         (simp_all add: fetch_fails 7)
  next
    case 8
    show ?thesis
      unfolding reverseCopy_def
      by (rule run_all_fails [where a = "fetch (predictedCov r) step set_pred_sysVar"])
         (simp_all add: fetch_fails 8)
  next
    case 9
    show ?thesis
      unfolding reverseCopy_def
      by (rule run_all_fails [where a = "fetch (result_noiseVar r) step (\<lambda>v m. m\<lparr>noiseVar := v\<rparr>)"])
         (simp_all add: fetch_fails 9)
  next
    case 10
    show ?thesis
      unfolding reverseCopy_def
      by (rule run_all_fails [where a = "fetch (result_df r) step (\<lambda>v m. m\<lparr>df := v\<rparr>)"])
         (simp_all add: fetch_fails 10)
  qed
  then show False using assms by simp
qed

lemma reverseCopy_restores:
  assumes "reverseCopy r step m = (Inr (), m')"
  shows "restored r step m' \<and> evaluation m' = evaluation m"
proof -
  have "has_snapshot r step"
    using assms by (intro reverseCopy_needs_snapshot [of r step m]) simp
  from reverseCopy_value [OF this, of m] assms show ?thesis
    by (auto simp: restored_def)
qed

lemma setModelStatus_restores:
  assumes "setModelStatus ext date s = (Inr (), s1)"
  shows "restored (result s) date (model (builder s1)) \<and> result s1 = result s"
proof -
  have r: "result s1 = result s"
    using setModelStatus_result [of ext date s] assms by simp
  have inside: "\<not> (date < fst (filteredSteps (result s)) \<or> date > snd (filteredSteps (result s)))"
    using assms by (auto simp: setModelStatus_def)
  then have "and_then (on_model (reverseCopy (result s) date) s)
             (\<lambda>u s'. (Inr (), refreshEvaluation ext date s')) = (Inr (), s1)"
    using assms by (simp add: setModelStatus_def)
  then show ?thesis
  proof (cases rule: and_thenE)
    case (raised e)
    then show ?thesis by simp
  next
    case (went_on u s')
    obtain x m' where m': "reverseCopy (result s) date (model (builder s)) = (x, m')"
      by (cases "reverseCopy (result s) date (model (builder s))")
    then have x: "x = Inr ()" and s': "s' = s\<lparr>builder := (builder s)\<lparr>model := m'\<rparr>\<rparr>"
      using went_on(1) by (simp_all add: on_model_def)
    have "restored (result s) date m'"
      using reverseCopy_restores m' x by blast
    moreover have "s1 = refreshEvaluation ext date s'" using went_on(2) by simp
    ultimately have "restored (result s) date (model (builder s1))"
      by (simp add: s' restored_def refreshEvaluation_def map_model_def)
    then show ?thesis using r by simp
  qed
qed

section \<open>The start of the forward filter\<close>




section \<open>Errors raised after the first write\<close>

lemma load_error: "fst (load sel step wr s) = Inl e \<Longrightarrow> e = IndexError"
  by (simp add: load_def fetch_error)

lemma move_error: "fst (move src sel upd step s) = Inl e \<Longrightarrow> e = IndexError"
  by (auto simp: move_def dest: getitem_error put_error split: sum.splits)

lemma replay_error: "fst (replay ext steps s) = Inl e \<Longrightarrow> e = IndexError"
proof (induction steps arbitrary: s)
  case Nil
  then show ?case by simp
next
  case (Cons i rest)
  then show ?case
    by (cases "getitem (dlm_data s) i") (auto dest: getitem_error)
qed

lemma renewIfNeeded_error:
  "fst (renewIfNeeded ext renew lastRenewPoint step s) = Inl e \<Longrightarrow> e = IndexError"
  unfolding renewIfNeeded_def
  by (auto split: if_splits elim!: and_then_error dest: replay_error)

lemma filterStep_error:
  assumes "fst (filterStep ext sv renew lastRenewPoint step s) = Inl e"
  shows "e = IndexError"
  using assms unfolding filterStep_def
proof (rule and_then_error)
  assume "fst (renewIfNeeded ext renew lastRenewPoint step (refreshEvaluation ext step s)) = Inl e"
  then show ?thesis by (rule renewIfNeeded_error)
next
  fix a s1
  assume "fst (case getitem (dlm_data (s1 :: 'a dlm)) step of
            Inl e \<Rightarrow> (Inl e, s1)
          | Inr y \<Rightarrow>
              (let s2 = map_model (\<lambda>m. Filter_forwardFilter ext m y) s1
               in if sv = SaveAll \<or> sv = SaveAt step
                  then and_then
                         (on_result (copy (model (builder s2)) step ''forwardFilter'') s2)
                         (\<lambda>u s3. (Inr a, s3))
                  else (Inr a, s2))) = Inl e"
  then show ?thesis
    by (cases "getitem (dlm_data s1) step")
       (auto simp: Let_def dest: getitem_error copy_error split: if_splits elim!: and_then_error)
qed

lemma filterLoop_error:
  "fst (filterLoop ext sv renew lastRenewPoint steps s) = Inl e \<Longrightarrow> e = IndexError"
proof (induction steps arbitrary: lastRenewPoint s)
  case Nil
  then show ?case by simp
next
  case (Cons step steps)
  obtain x s1 where st: "filterStep ext sv renew lastRenewPoint step s = (x, s1)"
    by (cases "filterStep ext sv renew lastRenewPoint step s")
  show ?case
  proof (cases x)
    case (Inl e')
    then show ?thesis using Cons.prems st filterStep_error [of ext sv renew lastRenewPoint step s e]
      by simp
  next
    case (Inr l)
    then show ?thesis using Cons.prems st Cons.IH [of l s1] by simp
  qed
qed

lemma smoothInit_error: "fst (smoothInit start ignoreFuture s) = Inl e \<Longrightarrow> e = IndexError"
  unfolding smoothInit_def
  by (auto simp del: run_all.simps split: if_splits
        elim!: and_then_error run_all_error [where P = "e = IndexError"]
        dest: move_error load_error)

lemma smoothCall_error: "fst (smoothCall ext day s) = Inl e \<Longrightarrow> e = IndexError"
  by (auto simp: smoothCall_def dest: getitem_error split: sum.splits)

lemma smoothStep_error: "fst (smoothStep ext day s) = Inl e \<Longrightarrow> e = IndexError"
  unfolding smoothStep_def
  by (auto simp del: run_all.simps elim!: run_all_error [where P = "e = IndexError"]
        dest: load_error smoothCall_error copy_error)

lemma smoothLoop_error:
  "fst (run_all (map (smoothStep ext) ds) s) = Inl e \<Longrightarrow> e = IndexError"
  by (erule run_all_error) (auto simp: list_all_iff dest: smoothStep_error)

lemma assignComponent_error:
  "fst (assignComponent i feature s) = Inl e \<Longrightarrow> e = KeyError \<or> e = ValueError"
  by (auto simp: assignComponent_def assign_slice_def Let_def
        split: option.splits sum.splits prod.splits if_splits)

lemma writeComponent_error:
  "fst (writeComponent ext featureDict date i s) = Inl e
     \<Longrightarrow> e = KeyError \<or> e = ValueError \<or> (date = None \<and> e = NoDateNoFeature i)"
  by (auto simp: writeComponent_def dest: assignComponent_error split: option.splits)

lemma writeComponents_error:
  assumes "fst (run_all (map (writeComponent ext featureDict date) names) s) = Inl e"
  shows "e = KeyError \<or> e = ValueError \<or> (date = None \<and> (\<exists>i. e = NoDateNoFeature i))"
  using assms
  by (rule run_all_error) (auto simp: list_all_iff dest: writeComponent_error)

lemma advanceStatus_error: "fst (advanceStatus obsNow s) = Inl e \<Longrightarrow> e = TypeError"
  by (auto simp: advanceStatus_def split: option.splits)

lemma forwardFilter_rejected:
  assumes "forwardFilter ext start end sv ForgetPrevious renew s = (Inl e, s')"
  shows "s' = s \<or> kind_of e = BuiltinError"
proof -
  let ?end = "case end of None \<Rightarrow> dlm_n s - 1 | Some e \<Rightarrow> e"
  have run: "\<not> start > ?end"
    using assms by (auto simp: forwardFilter_def Let_def)
  then have "and_then
                (if start = 0 \<or> ForgetPrevious then (Inr (), resetModelStatus ext s)
                 else if start > snd (filteredSteps (result s)) + 1
                      then (Inl DataBeforeStartNotFiltered, s)
                      else setModelStatus ext (start - 1) s)
                (\<lambda>u. filterLoop ext sv renew start [start .. ?end]) = (Inl e, s')"
    using assms by (simp add: forwardFilter_def Let_def)
  then show ?thesis
  proof (cases rule: and_thenE)
    case (raised e')
    then show ?thesis
      by (auto split: if_splits dest: setModelStatus_error)
  next
    case (went_on u s1)
    then have "fst (filterLoop ext sv renew start [start .. ?end] s1) = Inl e" by simp
    then show ?thesis using filterLoop_error by fastforce
  qed
qed

lemma backwardSmoother_rejected:
  assumes "backwardSmoother ext start days ignoreFuture s = (Inl e, s')"
  shows "s' = s \<or> kind_of e = BuiltinError"
proof -
  let ?start = "case start of None \<Rightarrow> dlm_n s - 1 | Some x \<Rightarrow> x"
  let ?end = "smootherEnd ?start days"
  show ?thesis
  proof (cases "snd (filteredSteps (result s)) < ?start")
    case True
    then show ?thesis using assms by (simp add: backwardSmoother_def Let_def)
  next
    case False
    then have "and_then (smoothInit ?start ignoreFuture s)
                (\<lambda>start1 s1.
                   if start1 < ?end then (Inr (), s1)
                   else and_then
                          (run_all
                             [load smoothedState (start1 + 1) (\<lambda>v m. m\<lparr>state := v\<rparr>),
                              load smoothedCov (start1 + 1) (\<lambda>v m. m\<lparr>sysVar := v\<rparr>)] s1)
                          (\<lambda>u. run_all (map (smoothStep ext) (rev [?end .. start1]))))
              = (Inl e, s')"
      using assms by (simp add: backwardSmoother_def Let_def)
    then have "e = IndexError"
    proof (cases rule: and_thenE)
      case (raised e')
      then have "fst (smoothInit ?start ignoreFuture s) = Inl e" by simp
      then show ?thesis by (rule smoothInit_error)
    next
      case (went_on start1 s1)
      show ?thesis
      proof (cases "start1 < ?end")
        case True
        then show ?thesis using went_on(2) by simp
      next
        case False
        then have "fst (and_then
                          (run_all
                             [load smoothedState (start1 + 1) (\<lambda>v m. m\<lparr>state := v\<rparr>),
                              load smoothedCov (start1 + 1) (\<lambda>v m. m\<lparr>sysVar := v\<rparr>)] s1)
                          (\<lambda>u. run_all (map (smoothStep ext) (rev [?end .. start1])))) = Inl e"
          using went_on(2) by simp
        then show ?thesis
        proof (rule and_then_error)
          assume "fst (run_all
                     [load smoothedState (start1 + 1) (\<lambda>v m. m\<lparr>state := v\<rparr>),
                      load smoothedCov (start1 + 1) (\<lambda>v m. m\<lparr>sysVar := v\<rparr>)] s1) = Inl e"
          then show ?thesis
            by (rule run_all_error) (auto dest: load_error)
        next
          fix a s2
          assume "fst (run_all (map (smoothStep ext) (rev [?end .. start1])) s2) = Inl e"
          then show ?thesis by (rule smoothLoop_error)
        qed
      qed
    qed
    then show ?thesis by simp
  qed
qed

lemma predictInSample_rejected:
  assumes "predictInSample ext date days s = (Inl e, s')"
  shows "s' = s \<or> kind_of e = BuiltinError"
proof (cases "date + days > dlm_n s - 1")
  case True
  then show ?thesis using assms by (simp add: predictInSample_def)
next
  case False
  then have "and_then (setModelStatus ext date s)
             (\<lambda>u s1. predictLoop ext date [1 .. days - 1]
                        (replicate (nat days) PyNone, replicate (nat days) PyNone)
                        (map_model (set_pred_step 0) s1)) = (Inl e, s')"
    using assms by (simp add: predictInSample_def)
  then show ?thesis
  proof (cases rule: and_thenE)
    case (raised e')
    then show ?thesis by (auto dest: setModelStatus_error)
  next
    case (went_on u s1)
    then have "fst (predictLoop ext date [1 .. days - 1]
                        (replicate (nat days) PyNone, replicate (nat days) PyNone)
                        (map_model (set_pred_step 0) s1)) = Inl e"
      by simp
    then show ?thesis using predictLoop_error by fastforce
  qed
qed

lemma constructEvaluationForPrediction_rejected:
  assumes "constructEvaluationForPrediction ext featureDict date s = (Inl e, s')"
  shows "(e = FeatureDictAndDateBothNone \<and> s' = s \<and> date = None) \<or> kind_of e = BuiltinError
         \<or> (date = None \<and> (\<exists>i. e = NoDateNoFeature i))"
proof (cases featureDict)
  case None
  then show ?thesis using assms
    by (auto simp: constructEvaluationForPrediction_def split: option.splits)
next
  case (Some fd)
  then have "fst (and_then
            (run_all (map (writeComponent ext fd date) (map fst (dynamicComponents (builder s)))) s)
            (\<lambda>u. run_all (map (writeComponent ext fd date)
                            (map fst (automaticComponents (builder s)))))) = Inl e"
    using assms by (simp add: constructEvaluationForPrediction_def)
  then have "e = KeyError \<or> e = ValueError \<or> (date = None \<and> (\<exists>i. e = NoDateNoFeature i))"
    by (rule and_then_error) (erule writeComponents_error)+
  then show ?thesis by auto
qed

lemma oneDayAheadPredict_rejected:
  assumes "oneDayAheadPredict ext date featureDict s = (Inl e, s')"
  shows "s' = s \<or> kind_of e = BuiltinError"
proof (cases "date > dlm_n s - 1")
  case True
  then show ?thesis using assms by (simp add: oneDayAheadPredict_def)
next
  case False
  then have "and_then (setModelStatus ext date s)
             (\<lambda>u s1. and_then (constructEvaluationForPrediction ext featureDict (Some (date + 1)) s1)
                (\<lambda>u s2.
                   let s3 = map_model (Filter_predict ext) (map_model (set_pred_step 0) s2);
                       obsNow = pred_obs (prediction (model (builder s3)));
                       varNow = pred_obsVar (prediction (model (builder s3)))
                   in (Inr (obsNow, varNow),
                       s3\<lparr>result := (result s3)\<lparr>predictStatus :=
                             Some (date, date + 1, [obsNow])\<rparr>\<rparr>)))
          = (Inl e, s')"
    using assms by (simp add: oneDayAheadPredict_def)
  then show ?thesis
  proof (cases rule: and_thenE)
    case (raised e')
    then show ?thesis by (auto dest: setModelStatus_error)
  next
    case (went_on u s1)
    from went_on(2) show ?thesis
    proof (cases rule: and_thenE)
      case (raised e')
      then show ?thesis
        using constructEvaluationForPrediction_rejected [of ext featureDict "Some (date + 1)" s1 e s']
        by auto
    next
      case (went_on u' s2)
      then show ?thesis by (simp add: Let_def)
    qed
  qed
qed

lemma continuePredict_rejected:
  assumes "continuePredict ext featureDict s = (Inl e, s')"
  shows "s' = s \<or> kind_of e = BuiltinError"
proof (cases "predictStatus (result s)")
  case None
  then show ?thesis using assms by (simp add: continuePredict_def)
next
  case (Some cursor)
  obtain baseDate currentDate forecasts where cur: "cursor = (baseDate, currentDate, forecasts)"
    by (cases cursor)
  show ?thesis
  proof (cases "autoRegFeatures (automaticComponents (builder s)) forecasts featureDict")
    case (Inl e')
    then show ?thesis using assms Some cur
      by (auto simp: continuePredict_def dest: autoRegFeatures_error)
  next
    case (Inr featureDict')
    then have "and_then (constructEvaluationForPrediction ext featureDict' (Some (currentDate + 1)) s)
                 (\<lambda>u s1.
                    let s2 = map_model (Filter_predict ext) s1;
                        obsNow = pred_obs (prediction (model (builder s2)));
                        varNow = pred_obsVar (prediction (model (builder s2)))
                    in and_then (advanceStatus obsNow s2)
                         (\<lambda>u s3. (Inr (obsNow, varNow), s3)))
               = (Inl e, s')"
      using assms Some cur by (simp add: continuePredict_def)
    then show ?thesis
    proof (cases rule: and_thenE)
      case (raised e')
      then show ?thesis
        using constructEvaluationForPrediction_rejected
                [of ext featureDict' "Some (currentDate + 1)" s e s']
        by auto
    next
      case (went_on u s1)
      then have "fst (and_then (advanceStatus (pred_obs (prediction (model (builder
                         (map_model (Filter_predict ext) s1))))) (map_model (Filter_predict ext) s1))
                   (\<lambda>u s3. (Inr (pred_obs (prediction (model (builder
                         (map_model (Filter_predict ext) s1)))),
                               pred_obsVar (prediction (model (builder
                         (map_model (Filter_predict ext) s1))))), s3))) = Inl e"
        by (simp add: Let_def)
      then have "e = TypeError"
        by (rule and_then_error) (auto dest: advanceStatus_error)
      then show ?thesis by simp
    qed
  qed
qed

lemma raised_Some:
  assumes "fst (raised r) = Some e"
  shows "r = (Inl e, snd (raised r))"
proof (cases r)
  case (Pair x s1)
  then show ?thesis using assms by (cases x) (simp_all add: raised_def)
qed

section \<open>Rejected calls\<close>

text \<open>
  Claim C3, as amended. The sequencing errors, the range errors and the feature error for
  \<^verbatim>\<open>featureDict\<close> and \<^verbatim>\<open>date\<close> both missing that \<^verbatim>\<open>_dlm.py\<close> itself raises (its
  \<^verbatim>\<open>raise\<close> statements of lines 211, 276, 342, 369, 383, 419 and 467) come before every
  write: when a call of \<^verbatim>\<open>_forwardFilter\<close>,
  \<^verbatim>\<open>_backwardSmoother\<close>, \<^verbatim>\<open>_predictInSample\<close>, \<^verbatim>\<open>_oneDayAheadPredict\<close>,
  \<^verbatim>\<open>_continuePredict\<close>, \<^verbatim>\<open>_constructEvaluationForPrediction\<close> or \<^verbatim>\<open>_setModelStatus\<close> ends
  with one of them, the engine (its model and its ledger) is exactly as it was before the
  call. Errors raised inside a collaborator (\<^verbatim>\<open>builder.updateEvaluation\<close>, the
  \<^verbatim>\<open>updateEvaluation\<close> of a component, the filter), which the engine calls after
  \<^verbatim>\<open>_setModelStatus\<close> has written the model, are no values of \<open>error\<close> and are not
  covered.
\<close>

theorem rejected_call_leaves_engine:
  assumes "fst (perform ext c s) = Some e"
    and "kind_of e = SequencingError \<or> kind_of e = RangeError \<or> e = FeatureDictAndDateBothNone"
  shows "snd (perform ext c s) = s"
proof (cases c)
  case (ForwardFilter start stop sv ForgetPrevious renew)
  then have "forwardFilter ext start stop sv ForgetPrevious renew s
               = (Inl e, snd (perform ext c s))"
    using raised_Some [of "forwardFilter ext start stop sv ForgetPrevious renew s" e] assms(1)
    by simp
  from forwardFilter_rejected [OF this] assms(2) show ?thesis by auto
next
  case (BackwardSmoother start days ignoreFuture)
  then have "backwardSmoother ext start days ignoreFuture s = (Inl e, snd (perform ext c s))"
    using raised_Some [of "backwardSmoother ext start days ignoreFuture s" e] assms(1)
    by simp
  from backwardSmoother_rejected [OF this] assms(2) show ?thesis by auto
next
  case (PredictInSample date days)
  then have "predictInSample ext date days s = (Inl e, snd (perform ext c s))"
    using raised_Some [of "predictInSample ext date days s" e] assms(1)
    by simp
  from predictInSample_rejected [OF this] assms(2) show ?thesis by auto
next
  case (OneDayAheadPredict date featureDict)
  then have "oneDayAheadPredict ext date featureDict s = (Inl e, snd (perform ext c s))"
    using raised_Some [of "oneDayAheadPredict ext date featureDict s" e] assms(1)
    by simp
  from oneDayAheadPredict_rejected [OF this] assms(2) show ?thesis by auto
next
  case (ContinuePredict featureDict)
  then have "continuePredict ext featureDict s = (Inl e, snd (perform ext c s))"
    using raised_Some [of "continuePredict ext featureDict s" e] assms(1)
    by simp
  from continuePredict_rejected [OF this] assms(2) show ?thesis by auto
next
  case (ConstructEvaluationForPrediction featureDict date)
  then have "constructEvaluationForPrediction ext featureDict date s
               = (Inl e, snd (perform ext c s))"
    using raised_Some [of "constructEvaluationForPrediction ext featureDict date s" e] assms(1)
    by simp
  from constructEvaluationForPrediction_rejected [OF this] assms(2) show ?thesis by auto
next
  case (SetModelStatus date)
  then have "setModelStatus ext date s = (Inl e, snd (perform ext c s))"
    using raised_Some [of "setModelStatus ext date s" e] assms(1)
    by simp
  from setModelStatus_error [OF this] assms(2) show ?thesis by auto
qed

theorem rejected_call_leaves_engine_witness:
  "snd (perform demo_ext (ForwardFilter 2 None SaveAll False False) demo_dlm) = demo_dlm
   \<and> snd (perform demo_ext (PredictInSample 0 3) demo_filtered) = demo_filtered
   \<and> snd (perform demo_ext (ConstructEvaluationForPrediction None None) demo_components)
       = demo_components"
proof -
  have a: "fst (perform demo_ext (ForwardFilter 2 None SaveAll False False) demo_dlm)
             = Some DataBeforeStartNotFiltered"
    by code_simp
  have a': "kind_of DataBeforeStartNotFiltered = SequencingError
            \<or> kind_of DataBeforeStartNotFiltered = RangeError
            \<or> DataBeforeStartNotFiltered = FeatureDictAndDateBothNone"
    by simp
  have b: "fst (perform demo_ext (PredictInSample 0 3) demo_filtered) = Some RangeOutOfSample"
    by code_simp
  have b': "kind_of RangeOutOfSample = SequencingError
            \<or> kind_of RangeOutOfSample = RangeError
            \<or> RangeOutOfSample = FeatureDictAndDateBothNone"
    by simp
  have c: "fst (perform demo_ext (ConstructEvaluationForPrediction None None) demo_components)
             = Some FeatureDictAndDateBothNone"
    by code_simp
  have c': "kind_of FeatureDictAndDateBothNone = SequencingError
            \<or> kind_of FeatureDictAndDateBothNone = RangeError
            \<or> FeatureDictAndDateBothNone = FeatureDictAndDateBothNone"
    by simp
  show ?thesis
    using rejected_call_leaves_engine [OF a a'] rejected_call_leaves_engine [OF b b']
      rejected_call_leaves_engine [OF c c']
    by blast
qed

text \<open>
  The claim as stated fails: \<^verbatim>\<open>_constructEvaluationForPrediction\<close> with an override for
  the first dynamic component only and no date raises the feature error for the second
  component after it has overwritten the first component's slice of the evaluation row.
\<close>

theorem rejected_call_counterexample:
  "fst (perform demo_ext (ConstructEvaluationForPrediction (Some [''a'' \<mapsto> [PyInt 7]]) None)
          demo_components) = Some (NoDateNoFeature ''b'')
   \<and> kind_of (NoDateNoFeature ''b'') = FeatureError
   \<and> evaluation (model (builder demo_components)) = [PyInt 0, PyInt 0, PyInt 0, PyInt 0]
   \<and> evaluation (model (builder (snd (perform demo_ext
          (ConstructEvaluationForPrediction (Some [''a'' \<mapsto> [PyInt 7]]) None) demo_components))))
       = [PyInt 7, PyInt 0, PyInt 0, PyInt 0]"
  by code_simp

section \<open>When the smoother returns\<close>

lemma getitem_in_range:
  "0 \<le> i \<Longrightarrow> i < int (length xs) \<Longrightarrow> getitem xs i = Inr (xs ! nat i)"
  by (simp add: getitem_def py_index_def)

lemma run_all_invariant:
  assumes "I s" and "list_all (\<lambda>a. \<forall>s. I s \<longrightarrow> fst (a s) = Inr () \<and> I (snd (a s))) acts"
  shows "fst (run_all acts s) = Inr () \<and> I (snd (run_all acts s))"
  using assms
proof (induction acts arbitrary: s)
  case Nil
  then show ?case by simp
next
  case (Cons a acts)
  obtain x s1 where a: "a s = (x, s1)" by (cases "a s")
  have "I s \<longrightarrow> fst (a s) = Inr () \<and> I (snd (a s))" using Cons.prems(2) by simp
  then have x: "x = Inr ()" and i1: "I s1" using Cons.prems(1) a by simp_all
  have rest: "list_all (\<lambda>a. \<forall>s. I s \<longrightarrow> fst (a s) = Inr () \<and> I (snd (a s))) acts"
    using Cons.prems(2) by simp
  show ?case using a x Cons.IH [OF i1 rest] by simp
qed

lemma put_smoothed_sized:
  assumes "ledger_sized k r" and "0 \<le> i" and "i < int k"
  shows "fst (put smoothedState smoothedState_update i v r) = Inr ()
         \<and> ledger_sized k (snd (put smoothedState smoothedState_update i v r))"
    and "fst (put smoothedObs smoothedObs_update i v r) = Inr ()
         \<and> ledger_sized k (snd (put smoothedObs smoothedObs_update i v r))"
    and "fst (put smoothedCov smoothedCov_update i v r) = Inr ()
         \<and> ledger_sized k (snd (put smoothedCov smoothedCov_update i v r))"
    and "fst (put smoothedObsVar smoothedObsVar_update i v r) = Inr ()
         \<and> ledger_sized k (snd (put smoothedObsVar smoothedObsVar_update i v r))"
  using assms by (simp_all add: ledger_sized_def put_def setitem_in_range)

lemma copy_smoother_sized:
  assumes "ledger_sized k r" and "0 \<le> day" and "day < int k"
  shows "fst (copy m day ''backwardSmoother'' r) = Inr ()
         \<and> ledger_sized k (snd (copy m day ''backwardSmoother'' r))"
  unfolding copy_def
  using assms(1)
  by (simp del: run_all.simps)
     (rule run_all_invariant, simp_all add: put_smoothed_sized assms(2,3))

lemma load_sized:
  assumes "0 \<le> i" and "i < int (length (sel (result s)))"
  shows "fst (load sel i wr s) = Inr ()"
  using assms by (simp add: load_def fetch_def getitem_in_range)

lemma move_sized:
  assumes "ledger_sized k (result s)" and "0 \<le> i" and "i < int k"
  shows "fst (move filteredState smoothedState smoothedState_update i s) = Inr ()
         \<and> ledger_sized k (result (snd (move filteredState smoothedState smoothedState_update i s)))"
    and "fst (move filteredObs smoothedObs smoothedObs_update i s) = Inr ()
         \<and> ledger_sized k (result (snd (move filteredObs smoothedObs smoothedObs_update i s)))"
    and "fst (move filteredCov smoothedCov smoothedCov_update i s) = Inr ()
         \<and> ledger_sized k (result (snd (move filteredCov smoothedCov smoothedCov_update i s)))"
    and "fst (move filteredObsVar smoothedObsVar smoothedObsVar_update i s) = Inr ()
         \<and> ledger_sized k (result (snd (move filteredObsVar smoothedObsVar smoothedObsVar_update i s)))"
proof -
  have len: "length (filteredState (result s)) = k" "length (filteredObs (result s)) = k"
    "length (filteredCov (result s)) = k" "length (filteredObsVar (result s)) = k"
    using assms(1) by (simp_all add: ledger_sized_def)
  show "fst (move filteredState smoothedState smoothedState_update i s) = Inr ()
         \<and> ledger_sized k (result (snd (move filteredState smoothedState smoothedState_update i s)))"
    using put_smoothed_sized(1) [OF assms] assms(2,3)
    by (simp add: move_def getitem_in_range len)
  show "fst (move filteredObs smoothedObs smoothedObs_update i s) = Inr ()
         \<and> ledger_sized k (result (snd (move filteredObs smoothedObs smoothedObs_update i s)))"
    using put_smoothed_sized(2) [OF assms] assms(2,3)
    by (simp add: move_def getitem_in_range len)
  show "fst (move filteredCov smoothedCov smoothedCov_update i s) = Inr ()
         \<and> ledger_sized k (result (snd (move filteredCov smoothedCov smoothedCov_update i s)))"
    using put_smoothed_sized(3) [OF assms] assms(2,3)
    by (simp add: move_def getitem_in_range len)
  show "fst (move filteredObsVar smoothedObsVar smoothedObsVar_update i s) = Inr ()
         \<and> ledger_sized k (result (snd (move filteredObsVar smoothedObsVar smoothedObsVar_update i s)))"
    using put_smoothed_sized(4) [OF assms] assms(2,3)
    by (simp add: move_def getitem_in_range len)
qed

lemma smoothCall_sized:
  assumes "ledger_sized k (result s)" and "0 \<le> day" and "day < int k"
  shows "fst (smoothCall ext day s) = Inr ()"
proof -
  have "length (filteredState (result s)) = k" "length (filteredCov (result s)) = k"
    using assms(1) by (simp_all add: ledger_sized_def)
  then show ?thesis using assms(2,3) by (simp add: smoothCall_def getitem_in_range)
qed

lemma smoothStep_sized:
  assumes "ledger_sized k (result s)" and "0 \<le> day" and "day + 1 < int k"
  shows "fst (smoothStep ext day s) = Inr () \<and> ledger_sized k (result (snd (smoothStep ext day s)))"
  unfolding smoothStep_def
proof (rule run_all_invariant [where I = "\<lambda>s. ledger_sized k (result s)"])
  show "ledger_sized k (result s)" by (rule assms(1))
next
  have d: "day < int k" using assms(3) by simp
  have "fst (load predictedState (day + 1) set_pred_state s') = Inr ()"
    "fst (load predictedCov (day + 1) set_pred_sysVar s') = Inr ()"
    if "ledger_sized k (result s')" for s' :: "'a dlm"
    using that assms(2,3) by (simp_all add: load_sized ledger_sized_def)
  then show "list_all (\<lambda>a. \<forall>s. ledger_sized k (result s)
                 \<longrightarrow> fst (a s) = Inr () \<and> ledger_sized k (result (snd (a s))))
          [load predictedState (day + 1) set_pred_state,
           load predictedCov (day + 1) set_pred_sysVar,
           (\<lambda>s. (Inr (), refreshEvaluation ext day s)),
           smoothCall ext day,
           (\<lambda>s. on_result (copy (model (builder s)) day ''backwardSmoother'') s)]"
    using assms(2) d
    by (simp add: smoothCall_sized copy_smoother_sized)
qed

lemma smoothLoop_sized:
  assumes "ledger_sized k (result s)" and "\<forall>day \<in> set ds. 0 \<le> day \<and> day + 1 < int k"
  shows "fst (run_all (map (smoothStep ext) ds) s) = Inr ()"
proof -
  have "fst (run_all (map (smoothStep ext) ds) s) = Inr ()
        \<and> ledger_sized k (result (snd (run_all (map (smoothStep ext) ds) s)))"
    by (rule run_all_invariant [where I = "\<lambda>s. ledger_sized k (result s)"])
       (use assms in \<open>simp_all add: list_all_iff smoothStep_sized\<close>)
  then show ?thesis by simp
qed

lemma smoothInit_sized:
  assumes "ledger_sized k (result s)" and "0 \<le> start" and "start < int k"
    and "start = dlm_n s - 1 \<or> ignoreFuture"
  shows "\<exists>s1. smoothInit start ignoreFuture s = (Inr (start - 1), s1) \<and> ledger_sized k (result s1)"
proof -
  let ?acts = "[move filteredState smoothedState smoothedState_update start,
              move filteredObs smoothedObs smoothedObs_update start,
              move filteredCov smoothedCov smoothedCov_update start,
              move filteredObsVar smoothedObsVar smoothedObsVar_update start,
              load result_noiseVar start (\<lambda>v m. m\<lparr>noiseVar := v\<rparr>)]"
  have "fst (load result_noiseVar start (\<lambda>v m. m\<lparr>noiseVar := v\<rparr>) s') = Inr ()"
    if "ledger_sized k (result s')" for s' :: "'a dlm"
    using that assms(2,3) by (simp add: load_sized ledger_sized_def)
  then have "list_all (\<lambda>a. \<forall>s :: 'a dlm. ledger_sized k (result s)
                 \<longrightarrow> fst (a s) = Inr () \<and> ledger_sized k (result (snd (a s)))) ?acts"
    using assms(2,3) by (simp add: move_sized)
  with assms(1) have "fst (run_all ?acts s) = Inr ()
      \<and> ledger_sized k (result (snd (run_all ?acts s)))"
    by (rule run_all_invariant [where I = "\<lambda>s. ledger_sized k (result s)"])
  then obtain s1 where r: "run_all ?acts s = (Inr (), s1)" and s1: "ledger_sized k (result s1)"
    by (metis prod.collapse)
  have "smoothInit start ignoreFuture s = (Inr (start - 1), s1)"
    using assms(4) r unfolding smoothInit_def by (simp del: run_all.simps)
  then show ?thesis using s1 by blast
qed

lemma smoothRest_sized:
  assumes "ledger_sized k (result s1)" and "start < int k" and "0 \<le> end"
  shows "fst (if start - 1 < end then (Inr (), s1)
            else and_then
                   (run_all
                      [load smoothedState (start - 1 + 1) (\<lambda>v m. m\<lparr>state := v\<rparr>),
                       load smoothedCov (start - 1 + 1) (\<lambda>v m. m\<lparr>sysVar := v\<rparr>)] s1)
                   (\<lambda>u. run_all (map (smoothStep ext) (rev [end .. start - 1])))) = Inr ()"
proof (cases "start - 1 < end")
  case True
  then show ?thesis by simp
next
  case False
  let ?loads = "[load smoothedState (start - 1 + 1) (\<lambda>v m. m\<lparr>state := v\<rparr>),
                 load smoothedCov (start - 1 + 1) (\<lambda>v m. m\<lparr>sysVar := v\<rparr>)]"
  have pos: "0 \<le> start - 1 + 1" using False assms(3) by simp
  have "fst (load smoothedState (start - 1 + 1) (\<lambda>v m. m\<lparr>state := v\<rparr>) s') = Inr ()"
    "fst (load smoothedCov (start - 1 + 1) (\<lambda>v m. m\<lparr>sysVar := v\<rparr>) s') = Inr ()"
    if "ledger_sized k (result s')" for s' :: "'a dlm"
    using that pos assms(2) by (simp_all add: load_sized ledger_sized_def)
  then have "list_all (\<lambda>a. \<forall>s :: 'a dlm. ledger_sized k (result s)
                 \<longrightarrow> fst (a s) = Inr () \<and> ledger_sized k (result (snd (a s)))) ?loads"
    by simp
  with assms(1) have "fst (run_all ?loads s1) = Inr ()
      \<and> ledger_sized k (result (snd (run_all ?loads s1)))"
    by (rule run_all_invariant [where I = "\<lambda>s. ledger_sized k (result s)"])
  then obtain s2 where r: "run_all ?loads s1 = (Inr (), s2)" and s2: "ledger_sized k (result s2)"
    by (metis prod.collapse)
  have "\<forall>day \<in> set (rev [end .. start - 1]). 0 \<le> day \<and> day + 1 < int k"
    using assms(2,3) by auto
  then have "fst (run_all (map (smoothStep ext) (rev [end .. start - 1])) s2) = Inr ()"
    using smoothLoop_sized [OF s2] by blast
  then show ?thesis using False r by (simp del: run_all.simps)
qed

lemma backwardSmoother_returns:
  assumes "ledger_sized k (result s)"
    and "start0 = (case start of None \<Rightarrow> dlm_n s - 1 | Some x \<Rightarrow> x)"
    and "0 \<le> start0" and "start0 < int k" and "start0 \<le> snd (filteredSteps (result s))"
    and "start0 = dlm_n s - 1 \<or> ignoreFuture"
  shows "fst (backwardSmoother ext start days ignoreFuture s) = Inr ()"
proof -
  obtain s1 where i: "smoothInit start0 ignoreFuture s = (Inr (start0 - 1), s1)"
    and s1: "ledger_sized k (result s1)"
    using smoothInit_sized [OF assms(1,3,4,6)] by blast
  have "fst (if start0 - 1 < smootherEnd start0 days then (Inr (), s1)
            else and_then
                   (run_all
                      [load smoothedState (start0 - 1 + 1) (\<lambda>v m. m\<lparr>state := v\<rparr>),
                       load smoothedCov (start0 - 1 + 1) (\<lambda>v m. m\<lparr>sysVar := v\<rparr>)] s1)
                   (\<lambda>u. run_all (map (smoothStep ext)
                           (rev [smootherEnd start0 days .. start0 - 1])))) = Inr ()"
    by (rule smoothRest_sized [OF s1 assms(4)]) (rule smootherEnd_nonneg)
  then show ?thesis
    using assms(5) i unfolding backwardSmoother_def Let_def assms(2) [symmetric]
    by (simp del: run_all.simps)
qed

section \<open>The smoother at its starting index\<close>

text \<open>
  Claim C8. On a ledger whose lists have \<open>k\<close> entries, for a \<^verbatim>\<open>start\<close> (by default
  \<^verbatim>\<open>n - 1\<close>) that is an index of the ledger inside the filtered range, and that is the
  final index \<^verbatim>\<open>n - 1\<close> or comes with \<^verbatim>\<open>ignoreFuture\<close>: \<^verbatim>\<open>_backwardSmoother\<close> returns, and
  the ledger then holds at index \<^verbatim>\<open>start\<close> the same smoothed observation, observation
  variance, state and covariance as filtered ones, the filtered ones being those it held
  before the call.
\<close>

theorem smoothed_equals_filtered_at_start:
  assumes "ledger_sized k (result s)"
    and "start0 = (case start of None \<Rightarrow> dlm_n s - 1 | Some x \<Rightarrow> x)"
    and "0 \<le> start0" and "start0 < int k" and "start0 \<le> snd (filteredSteps (result s))"
    and "start0 = dlm_n s - 1 \<or> ignoreFuture"
  shows "\<exists>s' ob ov st cv.
           backwardSmoother ext start days ignoreFuture s = (Inr (), s')
           \<and> getitem (smoothedObs (result s')) start0 = Inr ob
           \<and> getitem (filteredObs (result s')) start0 = Inr ob
           \<and> getitem (smoothedObsVar (result s')) start0 = Inr ov
           \<and> getitem (filteredObsVar (result s')) start0 = Inr ov
           \<and> getitem (smoothedState (result s')) start0 = Inr st
           \<and> getitem (filteredState (result s')) start0 = Inr st
           \<and> getitem (smoothedCov (result s')) start0 = Inr cv
           \<and> getitem (filteredCov (result s')) start0 = Inr cv
           \<and> filteredObs (result s') = filteredObs (result s)
           \<and> filteredObsVar (result s') = filteredObsVar (result s)
           \<and> filteredState (result s') = filteredState (result s)
           \<and> filteredCov (result s') = filteredCov (result s)"
proof -
  obtain s' where r: "backwardSmoother ext start days ignoreFuture s = (Inr (), s')"
    using backwardSmoother_returns [OF assms, of ext days] by (metis prod.collapse)
  from backwardSmoother_boundary [OF r assms(2,6)] r show ?thesis by blast
qed

theorem smoothed_equals_filtered_at_start_witness:
  "\<exists>s' ob ov st cv.
     backwardSmoother demo_ext None None False demo_filtered = (Inr (), s')
     \<and> getitem (smoothedObs (result s')) 2 = Inr ob
     \<and> getitem (filteredObs (result s')) 2 = Inr ob
     \<and> getitem (smoothedObsVar (result s')) 2 = Inr ov
     \<and> getitem (filteredObsVar (result s')) 2 = Inr ov
     \<and> getitem (smoothedState (result s')) 2 = Inr st
     \<and> getitem (filteredState (result s')) 2 = Inr st
     \<and> getitem (smoothedCov (result s')) 2 = Inr cv
     \<and> getitem (filteredCov (result s')) 2 = Inr cv
     \<and> filteredObs (result s') = filteredObs (result demo_filtered)
     \<and> filteredObsVar (result s') = filteredObsVar (result demo_filtered)
     \<and> filteredState (result s') = filteredState (result demo_filtered)
     \<and> filteredCov (result s') = filteredCov (result demo_filtered)"
proof -
  have a: "ledger_sized 3 (result demo_filtered)" by code_simp
  have b: "(2::int) = (case None of None \<Rightarrow> dlm_n demo_filtered - 1 | Some x \<Rightarrow> x)"
    by code_simp
  have c: "(0::int) \<le> 2" "(2::int) < int 3" by simp_all
  have d: "(2::int) \<le> snd (filteredSteps (result demo_filtered))" by code_simp
  have e: "(2::int) = dlm_n demo_filtered - 1 \<or> False" by code_simp
  show ?thesis by (rule smoothed_equals_filtered_at_start [OF a b c d e])
qed

section \<open>What the in-sample prediction loop computes\<close>

lemma forecastState_append:
  "forecastState ext date (xs @ ys) s = forecastState ext date ys (forecastState ext date xs s)"
  by (induction xs arbitrary: s) simp_all

lemma predictLoop_append:
  "predictLoop ext date (xs @ ys) acc s =
     (case predictLoop ext date xs acc s of
        (Inl e, s') \<Rightarrow> (Inl e, s')
      | (Inr acc', s') \<Rightarrow> predictLoop ext date ys acc' s')"
proof (induction xs arbitrary: acc s)
  case Nil
  then show ?case by simp
next
  case (Cons i rest)
  obtain obsList varList where acc: "acc = (obsList, varList)" by (cases acc)
  show ?case
    unfolding acc using Cons.IH
    by (simp add: Let_def split: sum.splits)
qed

lemma upto_snoc: "1 \<le> int (Suc m) \<Longrightarrow> [1 .. int (Suc m)] = [1 .. int m] @ [int m + 1]"
  using upto_rec2 [of 1 "int (Suc m)"] by (simp add: add.commute)

lemma predictLoop_slots:
  assumes "length obsList = len" and "length varList = len"
  shows "m \<le> len \<Longrightarrow>
         \<exists>obsList' varList'.
           predictLoop ext date [1 .. int m] (obsList, varList) s
             = (Inr (obsList', varList'), forecastState ext date [1 .. int m] s)
           \<and> length obsList' = len \<and> length varList' = len
           \<and> (\<forall>i. 1 \<le> i \<and> i \<le> int m \<longrightarrow>
                  obsList' ! nat (i - 1)
                    = pred_obs (prediction (model (builder (forecastState ext date [1 .. i] s))))
                  \<and> varList' ! nat (i - 1)
                    = pred_obsVar (prediction (model (builder (forecastState ext date [1 .. i] s)))))"
proof (induction m)
  case 0
  have "\<not> (1 \<le> i \<and> i \<le> int 0)" for i :: int by simp
  then show ?case using assms by auto
next
  case (Suc m)
  then obtain o1 v1 where
    run: "predictLoop ext date [1 .. int m] (obsList, varList) s
            = (Inr (o1, v1), forecastState ext date [1 .. int m] s)"
    and len1: "length o1 = len" "length v1 = len"
    and slots: "\<And>i. 1 \<le> i \<Longrightarrow> i \<le> int m \<Longrightarrow>
                  o1 ! nat (i - 1)
                    = pred_obs (prediction (model (builder (forecastState ext date [1 .. i] s))))
                  \<and> v1 ! nat (i - 1)
                    = pred_obsVar (prediction (model (builder (forecastState ext date [1 .. i] s))))"
    by force
  let ?sm = "forecastState ext date [1 .. int m] s"
  let ?s1 = "map_model (Filter_predict ext) (refreshEvaluation ext (date + (int m + 1)) ?sm)"
  let ?o = "o1[m := pred_obs (prediction (model (builder ?s1)))]"
  let ?v = "v1[m := pred_obsVar (prediction (model (builder ?s1)))]"
  have split: "[1 .. int (Suc m)] = [1 .. int m] @ [int m + 1]"
    by (rule upto_snoc) simp
  have fs: "forecastState ext date [1 .. int (Suc m)] s = ?s1"
    by (simp only: split forecastState_append) (simp add: predictStep_def)
  have m: "m < length o1" "m < length v1" using Suc.prems len1 by simp_all
  have so: "setitem o1 (int m) (pred_obs (prediction (model (builder ?s1)))) = Inr ?o"
    using m by (simp add: setitem_in_range)
  have sv: "setitem v1 (int m) (pred_obsVar (prediction (model (builder ?s1)))) = Inr ?v"
    using m by (simp add: setitem_in_range)
  have last: "predictLoop ext date [int m + 1] (o1, v1) ?sm = (Inr (?o, ?v), ?s1)"
    by (simp add: Let_def so sv)
  have whole: "predictLoop ext date [1 .. int (Suc m)] (obsList, varList) s
                 = (Inr (?o, ?v), forecastState ext date [1 .. int (Suc m)] s)"
    by (simp only: split predictLoop_append run fs [unfolded split])
       (simp add: last del: predictLoop.simps)
  have "?o ! nat (i - 1)
          = pred_obs (prediction (model (builder (forecastState ext date [1 .. i] s))))
        \<and> ?v ! nat (i - 1)
          = pred_obsVar (prediction (model (builder (forecastState ext date [1 .. i] s))))"
    if i: "1 \<le> i" "i \<le> int (Suc m)" for i
  proof (cases "i \<le> int m")
    case True
    then have "nat (i - 1) \<noteq> m" using i by simp
    then show ?thesis using slots [OF i(1) True] by simp
  next
    case False
    then have e: "i = int (Suc m)" using i by simp
    have "nat (i - 1) = m" using e by simp
    then show ?thesis using m fs e by simp
  qed
  then show ?case using whole len1 by simp
qed

section \<open>The result of the in-sample prediction\<close>

text \<open>
  Claim C4, as amended. For a date inside the filtered range whose snapshot the ledger
  holds, and \<^verbatim>\<open>days >= 1\<close> with \<^verbatim>\<open>date + days <= n - 1\<close>, \<^verbatim>\<open>_predictInSample(date, days)\<close>
  restores the model at \<^verbatim>\<open>date\<close>, resets the prediction step counter to 0, runs the
  forecast steps \<open>1 .. days - 1\<close> and returns a sequence of predicted observations and a
  sequence of predicted observation variances, each of length \<^verbatim>\<open>days\<close>: for every
  forecast step \<open>i\<close> in \<open>1 .. days - 1\<close>, entry \<open>i - 1\<close> of each is the predicted
  observation, and its variance, of the model after \<open>i\<close> forecast steps.
\<close>

theorem predictInSample_result:
  assumes "1 \<le> days" and "date + days \<le> dlm_n s - 1"
    and "fst (filteredSteps (result s)) \<le> date" and "date \<le> snd (filteredSteps (result s))"
    and "has_snapshot (result s) date"
  shows "\<exists>s1 obsList varList.
           setModelStatus ext date s = (Inr (), s1)
           \<and> restored (result s) date (model (builder s1))
           \<and> predictInSample ext date days s
               = (Inr (obsList, varList),
                  forecastState ext date [1 .. days - 1] (map_model (set_pred_step 0) s1))
           \<and> int (length obsList) = days \<and> int (length varList) = days
           \<and> (\<forall>i. 1 \<le> i \<and> i \<le> days - 1 \<longrightarrow>
                  obsList ! nat (i - 1)
                    = pred_obs (prediction (model (builder
                        (forecastState ext date [1 .. i] (map_model (set_pred_step 0) s1)))))
                  \<and> varList ! nat (i - 1)
                    = pred_obsVar (prediction (model (builder
                        (forecastState ext date [1 .. i] (map_model (set_pred_step 0) s1))))))"
proof -
  obtain s1 where s1: "setModelStatus ext date s = (Inr (), s1)"
    using setModelStatus_succeeds [OF assms(3,4,5), of ext]
    by (metis prod.collapse)
  have r: "restored (result s) date (model (builder s1))"
    using setModelStatus_restores [OF s1] by simp
  let ?none = "replicate (nat days) (PyNone :: 'a pyval)"
  let ?s0 = "map_model (set_pred_step 0) s1"
  have d: "int (nat (days - 1)) = days - 1" using assms(1) by simp
  have len0: "length ?none = nat days" by simp
  have le: "nat (days - 1) \<le> nat days" by simp
  from predictLoop_slots [OF len0 len0 le, of ext date ?s0, unfolded d]
  obtain obsList varList where
    run: "predictLoop ext date [1 .. days - 1] (?none, ?none) ?s0
            = (Inr (obsList, varList), forecastState ext date [1 .. days - 1] ?s0)"
    and len: "length obsList = nat days" "length varList = nat days"
    and slots: "\<forall>i. 1 \<le> i \<and> i \<le> days - 1 \<longrightarrow>
                  obsList ! nat (i - 1)
                    = pred_obs (prediction (model (builder (forecastState ext date [1 .. i] ?s0))))
                  \<and> varList ! nat (i - 1)
                    = pred_obsVar (prediction (model (builder (forecastState ext date [1 .. i] ?s0))))"
    by blast
  have "predictInSample ext date days s
          = (Inr (obsList, varList), forecastState ext date [1 .. days - 1] ?s0)"
    using assms(2) s1 run by (simp add: predictInSample_def)
  moreover have "int (length obsList) = days" "int (length varList) = days"
    using len assms(1) by simp_all
  ultimately show ?thesis using s1 r slots by blast
qed

theorem predictInSample_result_witness:
  "\<exists>s1 obsList varList.
     setModelStatus demo_ext 0 demo_filtered = (Inr (), s1)
     \<and> restored (result demo_filtered) 0 (model (builder s1))
     \<and> predictInSample demo_ext 0 2 demo_filtered
         = (Inr (obsList, varList),
            forecastState demo_ext 0 [1 .. 2 - 1] (map_model (set_pred_step 0) s1))
     \<and> int (length obsList) = 2 \<and> int (length varList) = 2
     \<and> obsList ! nat (1 - 1)
         = pred_obs (prediction (model (builder
             (forecastState demo_ext 0 [1 .. 1] (map_model (set_pred_step 0) s1)))))
     \<and> varList ! nat (1 - 1)
         = pred_obsVar (prediction (model (builder
             (forecastState demo_ext 0 [1 .. 1] (map_model (set_pred_step 0) s1)))))"
proof -
  have a: "(1::int) \<le> 2" by simp
  have b: "(0::int) + 2 \<le> dlm_n demo_filtered - 1" by code_simp
  have c: "fst (filteredSteps (result demo_filtered)) \<le> 0" by code_simp
  have d: "0 \<le> snd (filteredSteps (result demo_filtered))" by code_simp
  have e: "has_snapshot (result demo_filtered) 0" by code_simp
  from predictInSample_result [OF a b c d e, of demo_ext]
  obtain s1 obsList varList where
    w: "setModelStatus demo_ext 0 demo_filtered = (Inr (), s1)"
      "restored (result demo_filtered) 0 (model (builder s1))"
      "predictInSample demo_ext 0 2 demo_filtered
         = (Inr (obsList, varList),
            forecastState demo_ext 0 [1 .. 2 - 1] (map_model (set_pred_step 0) s1))"
      "int (length obsList) = 2" "int (length varList) = 2"
    and slots: "\<forall>i. 1 \<le> i \<and> i \<le> 2 - 1 \<longrightarrow>
                  obsList ! nat (i - 1)
                    = pred_obs (prediction (model (builder
                        (forecastState demo_ext 0 [1 .. i] (map_model (set_pred_step 0) s1)))))
                  \<and> varList ! nat (i - 1)
                    = pred_obsVar (prediction (model (builder
                        (forecastState demo_ext 0 [1 .. i] (map_model (set_pred_step 0) s1)))))"
    by blast
  have "(1::int) \<le> 1 \<and> (1::int) \<le> 2 - 1" by simp
  with slots have
    "obsList ! nat (1 - 1)
       = pred_obs (prediction (model (builder
           (forecastState demo_ext 0 [1 .. 1] (map_model (set_pred_step 0) s1)))))
     \<and> varList ! nat (1 - 1)
       = pred_obsVar (prediction (model (builder
           (forecastState demo_ext 0 [1 .. 1] (map_model (set_pred_step 0) s1)))))"
    by blast
  with w show ?thesis by blast
qed

text \<open>
  The claim as stated fails: with \<^verbatim>\<open>days = 2\<close> the call returns two lists of length 2,
  not of length 1; the first entry of each is the forecast of step 1.
\<close>

theorem predictInSample_length_counterexample:
  "fst (predictInSample demo_ext 0 2 demo_filtered)
     = Inr ([PyVal 1, PyNone], [PyVal 1, PyNone])"
  by code_simp

end
